theory Spec2Isabelle
  imports Complex_Main "HOL-Library.AList" "HOL-Library.Sublist"
begin

section \<open>EthPingPong: the transaction lifecycle of \<^verbatim>\<open>src/EthPingPong.py\<close>\<close>

text \<open>
  The script sends a fixed amount back and forth between two wallets. Its state is the
  global dictionary \<^verbatim>\<open>nonces\<close>; everything else it knows comes from the node behind
  \<^verbatim>\<open>w3\<close>. The model passes the dictionary explicitly, takes the node's answers as a
  record of functions, turns every \<^verbatim>\<open>raise\<close> into a value \<open>Inl e\<close>, and returns the
  calls made and the lines printed as a list of events.
\<close>

subsection \<open>Exceptions\<close>

text \<open>
  Only two things about an exception are ever inspected: whether it is a
  \<^verbatim>\<open>web3.exceptions.TimeExhausted\<close> (line 111) and its text \<^verbatim>\<open>str(e)\<close> (line 116).
  All modelled exceptions derive from \<^verbatim>\<open>Exception\<close>; \<^verbatim>\<open>KeyboardInterrupt\<close> is not
  modelled.
\<close>

datatype exn_class = TimeExhausted | OverflowError | KeyError | OtherException

datatype exn = Exn (class_of: exn_class) (str: string)

definition key_error :: "string \<Rightarrow> exn" where
  \<comment> \<open>\<^verbatim>\<open>KeyError(k)\<close>, whose text is the key in quotes.\<close>
  "key_error k = Exn KeyError ([CHR 0x27] @ k @ [CHR 0x27])"

subsection \<open>Python floats, as far as the script uses them\<close>

text \<open>
  Two expressions multiply an \<^verbatim>\<open>int\<close> by a float literal: \<^verbatim>\<open>estimated * 1.1\<close> (line 87) and
  \<^verbatim>\<open>base_fee * 2.5\<close> (line 66). CPython converts the integer to the nearest IEEE 754
  double (ties to even, \<^verbatim>\<open>OverflowError\<close> when the result needs more than 1024 bits),
  multiplies and rounds the product to the nearest double again (infinity when its
  integer part needs more than 1024 bits).
  A finite double is written here as \<open>Finite m k\<close>, standing for \<open>m / 2^k\<close>. The integer
  operand is zero or at least one in magnitude and both literals exceed one, so no
  product is subnormal.
\<close>

fun bit_length :: "nat \<Rightarrow> nat" where
  "bit_length n = (if n = 0 then 0 else Suc (bit_length (n div 2)))"

declare bit_length.simps [simp del]

definition round53 :: "nat \<Rightarrow> nat" where
  \<comment> \<open>Round to 53 significant bits, ties to even.\<close>
  "round53 n =
     (if bit_length n \<le> 53 then n
      else let s = bit_length n - 53; q = n div 2 ^ s; r = n mod 2 ^ s
           in if 2 ^ s < 2 * r \<or> (2 * r = 2 ^ s \<and> odd q) then (q + 1) * 2 ^ s else q * 2 ^ s)"

datatype pyfloat = Finite int nat | Infinity

definition int_to_float :: "int \<Rightarrow> exn + int" where
  \<comment> \<open>The implicit conversion of an \<^verbatim>\<open>int\<close> operand; the result is the double's (integral) value.\<close>
  "int_to_float i =
     (let r = round53 (nat \<bar>i\<bar>)
      in if 1024 < bit_length r then Inl (Exn OverflowError ''int too large to convert to float'')
         else Inr (sgn i * int r))"

definition float_mul :: "int \<Rightarrow> nat \<times> nat \<Rightarrow> pyfloat" where
  \<comment> \<open>The double \<open>x\<close> times the double \<open>fst c / 2 ^ snd c\<close>.\<close>
  "float_mul x c =
     (let r = round53 (nat \<bar>x\<bar> * fst c)
      in if 1024 + snd c < bit_length r then Infinity else Finite (sgn x * int r) (snd c))"

definition int_times_float :: "int \<Rightarrow> nat \<times> nat \<Rightarrow> exn + pyfloat" where
  "int_times_float i c = (case int_to_float i of Inl e \<Rightarrow> Inl e | Inr x \<Rightarrow> Inr (float_mul x c))"

definition math_floor :: "pyfloat \<Rightarrow> exn + int" where
  "math_floor x =
     (case x of
        Finite m k \<Rightarrow> Inr (m div 2 ^ k)
      | Infinity \<Rightarrow> Inl (Exn OverflowError ''cannot convert float infinity to integer''))"

definition int_of_float :: "pyfloat \<Rightarrow> exn + int" where
  \<comment> \<open>\<^verbatim>\<open>int(x)\<close> truncates towards zero.\<close>
  "int_of_float x =
     (case x of
        Finite m k \<Rightarrow> Inr (sgn m * (\<bar>m\<bar> div 2 ^ k))
      | Infinity \<Rightarrow> Inl (Exn OverflowError ''cannot convert float infinity to integer''))"

definition float_1_1 :: "nat \<times> nat" where
  \<comment> \<open>The double nearest to 1.1, \<^verbatim>\<open>0x1.199999999999ap+0\<close>.\<close>
  "float_1_1 = (4953959590107546, 52)"

definition float_2_5 :: "nat \<times> nat" where
  "float_2_5 = (5, 1)"

subsection \<open>Data\<close>

datatype pyval = PInt int | PStr string

type_synonym pydict = "(string \<times> pyval) list"

definition dict_merge :: "pydict \<Rightarrow> pydict \<Rightarrow> pydict" where
  \<comment> \<open>\<^verbatim>\<open>{**a, **b}\<close>: the entries of \<open>b\<close> are stored into \<open>a\<close> in order.\<close>
  "dict_merge a b = fold (\<lambda>(k, v). AList.update k v) b a"

record account =
  address :: string
  key :: string

record receipt =
  blockNumber :: int
  status :: int

record config =
  acct_a :: account
  acct_b :: account
  AMOUNT_ETH :: string
  WAIT_FOR_CONFIRMATIONS :: int

text \<open>
  The collaborators behind \<^verbatim>\<open>w3\<close> and \<^verbatim>\<open>Account\<close>, as they answer during one call of
  \<^verbatim>\<open>build_and_send\<close> (or of \<^verbatim>\<open>get_initial_nonces\<close>). A block is given by its numeric
  fields, a transaction hash by its hexadecimal text.
\<close>

record web3 =
  to_wei :: "string \<Rightarrow> string \<Rightarrow> exn + int"
  chain_id :: "exn + int"
  estimate_gas :: "pydict \<Rightarrow> exn + int"
  get_block :: "string \<Rightarrow> exn + (string \<rightharpoonup> int)"
  max_priority_fee :: "exn + int"
  gas_price :: "exn + int"
  sign_transaction :: "pydict \<Rightarrow> string \<Rightarrow> exn + string"
  send_raw_transaction :: "string \<Rightarrow> exn + string"
  wait_for_transaction_receipt :: "string \<Rightarrow> int \<Rightarrow> int \<Rightarrow> exn + receipt"
  get_transaction_count :: "string \<Rightarrow> string \<Rightarrow> exn + int"

datatype call =
    ChainId
  | EstimateGas pydict
  | GetBlock string
  | MaxPriorityFee
  | GasPrice
  | SignTransaction pydict
  | SendRawTransaction string
  | WaitForTransactionReceipt string int int
  | GetTransactionCount string string

datatype line =
    GasEstimateFailed exn
  | TxSubmitted string string string int int
  | Confirmed int int
  | ReceiptTimeout
  | SendError string
  | NonceReset string int
  | NonceRefetchFailed exn
  | RoutineException exn
  | Waiting

datatype event = Call call | Print line

subsection \<open>Sequence numbers at start-up (lines 41--46)\<close>


subsection \<open>Fees (lines 49--71)\<close>

definition two_gwei :: int where
  \<comment> \<open>\<^verbatim>\<open>w3.to_wei(2, "gwei")\<close>\<close>
  "two_gwei = 2 * 10 ^ 9"

definition compute_fee_values :: "web3 \<Rightarrow> (exn + pydict) \<times> event list" where
  "compute_fee_values w3 =
     (case get_block w3 ''latest'' of
        Inl e \<Rightarrow> (Inl e, [Call (GetBlock ''latest'')])
      | Inr latest \<Rightarrow>
          (case latest ''baseFeePerGas'' of
             Some base_fee \<Rightarrow>
               (let priority = (case max_priority_fee w3 of Inr p \<Rightarrow> p | Inl e \<Rightarrow> two_gwei);
                    evs = [Call (GetBlock ''latest''), Call MaxPriorityFee]
                in case int_times_float base_fee float_2_5 of
                     Inl e \<Rightarrow> (Inl e, evs)
                   | Inr scaled \<Rightarrow>
                       (case int_of_float scaled of
                          Inl e \<Rightarrow> (Inl e, evs)
                        | Inr m \<Rightarrow>
                            (let max_fee = m + priority
                             in (Inr [(''maxPriorityFeePerGas'', PInt priority),
                                      (''maxFeePerGas'', PInt max_fee)], evs))))
           | None \<Rightarrow>
               (case gas_price w3 of
                  Inl e \<Rightarrow> (Inl e, [Call (GetBlock ''latest''), Call GasPrice])
                | Inr gp \<Rightarrow> (Inr [(''gasPrice'', PInt gp)], [Call (GetBlock ''latest''), Call GasPrice]))))"

subsection \<open>Gas limit (lines 83--90)\<close>

definition gas_estimate :: "web3 \<Rightarrow> account \<Rightarrow> pydict \<Rightarrow> int \<times> event list" where
  "gas_estimate w3 from_acct tx_base =
     (let request = AList.update ''from'' (PStr (address from_acct)) tx_base;
          attempt =
            (case estimate_gas w3 request of
               Inl e \<Rightarrow> Inl e
             | Inr estimated \<Rightarrow>
                 (case int_times_float estimated float_1_1 of
                    Inl e \<Rightarrow> Inl e
                  | Inr scaled \<Rightarrow> math_floor scaled))
      in case attempt of
           Inr gas_limit \<Rightarrow> (gas_limit, [Call (EstimateGas request)])
         | Inl e \<Rightarrow> (21000, [Call (EstimateGas request), Print (GasEstimateFailed e)]))"

subsection \<open>Classifying a failure (line 118)\<close>

definition lower_char :: "char \<Rightarrow> char" where
  "lower_char c =
     (let n = (of_char c :: nat) in if 65 \<le> n \<and> n \<le> 90 then char_of (n + 32) else c)"

definition lower :: "string \<Rightarrow> string" where
  \<comment> \<open>\<^verbatim>\<open>str.lower()\<close> on ASCII text.\<close>
  "lower s = map lower_char s"

definition nonce_related :: "string \<Rightarrow> bool" where
  "nonce_related errstr \<longleftrightarrow>
     sublist ''nonce'' (lower errstr) \<or>
     sublist ''replacement transaction underpriced'' (lower errstr) \<or>
     sublist ''already known'' (lower errstr)"

subsection \<open>Sending (lines 100--126)\<close>

text \<open>The body of the \<^verbatim>\<open>try\<close> of line 100, up to the \<^verbatim>\<open>return\<close> of line 113.\<close>

definition try_send ::
  "config \<Rightarrow> web3 \<Rightarrow> account \<Rightarrow> string \<Rightarrow> string \<Rightarrow> int \<Rightarrow> string \<Rightarrow> (string \<rightharpoonup> int)
     \<Rightarrow> (exn + string) \<times> (string \<rightharpoonup> int) \<times> event list" where
  "try_send cfg w3 from_acct to_addr nonce_key gas_limit signed nonces =
     (case send_raw_transaction w3 signed of
        Inl e \<Rightarrow> (Inl e, nonces, [Call (SendRawTransaction signed)])
      | Inr tx_hash \<Rightarrow>
          (case nonces nonce_key of
             None \<Rightarrow> (Inl (key_error nonce_key), nonces, [Call (SendRawTransaction signed)])
           | Some n \<Rightarrow>
               (let evs = [Call (SendRawTransaction signed),
                           Print (TxSubmitted tx_hash (address from_acct) to_addr n gas_limit)];
                    nonces' = nonces(nonce_key \<mapsto> n + 1)
                in if WAIT_FOR_CONFIRMATIONS cfg > 0 then
                     (case wait_for_transaction_receipt w3 tx_hash 120 2 of
                        Inr r \<Rightarrow>
                          (Inr tx_hash, nonces',
                           evs @ [Call (WaitForTransactionReceipt tx_hash 120 2),
                                  Print (Confirmed (blockNumber r) (status r))])
                      | Inl e \<Rightarrow>
                          if class_of e = TimeExhausted then
                            (Inr tx_hash, nonces',
                             evs @ [Call (WaitForTransactionReceipt tx_hash 120 2),
                                    Print ReceiptTimeout])
                          else
                            (Inl e, nonces',
                             evs @ [Call (WaitForTransactionReceipt tx_hash 120 2)]))
                   else (Inr tx_hash, nonces', evs))))"

text \<open>The handler of line 114; the function returns \<^verbatim>\<open>None\<close> after it.\<close>

definition on_send_error ::
  "web3 \<Rightarrow> account \<Rightarrow> string \<Rightarrow> exn \<Rightarrow> (string \<rightharpoonup> int) \<Rightarrow> (string \<rightharpoonup> int) \<times> event list" where
  "on_send_error w3 from_acct nonce_key e nonces =
     (let errstr = str e
      in if nonce_related errstr then
           (case get_transaction_count w3 (address from_acct) ''pending'' of
              Inr current \<Rightarrow>
                (nonces(nonce_key \<mapsto> current),
                 [Print (SendError errstr),
                  Call (GetTransactionCount (address from_acct) ''pending''),
                  Print (NonceReset (address from_acct) current)])
            | Inl ee \<Rightarrow>
                (nonces,
                 [Print (SendError errstr),
                  Call (GetTransactionCount (address from_acct) ''pending''),
                  Print (NonceRefetchFailed ee)]))
         else (nonces, [Print (SendError errstr)]))"

subsection \<open>\<^verbatim>\<open>build_and_send\<close> (lines 73--126)\<close>

text \<open>
  Lines 75--99: the transaction is built and signed. Nothing is caught here but a failed
  gas estimate, so any other exception leaves \<^verbatim>\<open>build_and_send\<close>. The result is the gas
  limit, the transaction and its signed form.
\<close>

definition build_signed ::
  "config \<Rightarrow> web3 \<Rightarrow> account \<Rightarrow> string \<Rightarrow> string \<Rightarrow> (string \<rightharpoonup> int)
     \<Rightarrow> (exn + int \<times> pydict \<times> string) \<times> event list" where
  "build_signed cfg w3 from_acct to_addr nonce_key nonces =
     (case to_wei w3 (AMOUNT_ETH cfg) ''ether'' of
        Inl e \<Rightarrow> (Inl e, [])
      | Inr amount_wei \<Rightarrow>
     (case nonces nonce_key of
        None \<Rightarrow> (Inl (key_error nonce_key), [])
      | Some n \<Rightarrow>
     (case chain_id w3 of
        Inl e \<Rightarrow> (Inl e, [Call ChainId])
      | Inr cid \<Rightarrow>
     (let tx_base = [(''to'', PStr to_addr), (''value'', PInt amount_wei),
                     (''nonce'', PInt n), (''chainId'', PInt cid)];
          (gas_limit, evs_gas) = gas_estimate w3 from_acct tx_base;
          tx_base = AList.update ''gas'' (PInt gas_limit) tx_base;
          (fee, evs_fee) = compute_fee_values w3;
          evs = Call ChainId # evs_gas @ evs_fee
      in case fee of
           Inl e \<Rightarrow> (Inl e, evs)
         | Inr fee_vals \<Rightarrow>
             (let tx = dict_merge tx_base fee_vals
              in case sign_transaction w3 tx (key from_acct) of
                   Inl e \<Rightarrow> (Inl e, evs @ [Call (SignTransaction tx)])
                 | Inr signed \<Rightarrow>
                     (Inr (gas_limit, tx, signed), evs @ [Call (SignTransaction tx)]))))))"

text \<open>
  The whole function. The result is \<open>Inl e\<close> when \<open>e\<close> leaves the function, \<open>Inr None\<close> for
  \<^verbatim>\<open>return None\<close> and \<open>Inr (Some h)\<close> for the returned hash; with it come the dictionary as
  the call leaves it and the events of the call.
\<close>

definition build_and_send ::
  "config \<Rightarrow> web3 \<Rightarrow> account \<Rightarrow> string \<Rightarrow> string \<Rightarrow> (string \<rightharpoonup> int)
     \<Rightarrow> (exn + string option) \<times> (string \<rightharpoonup> int) \<times> event list" where
  "build_and_send cfg w3 from_acct to_addr nonce_key nonces =
     (case build_signed cfg w3 from_acct to_addr nonce_key nonces of
        (Inl e, evs) \<Rightarrow> (Inl e, nonces, evs)
      | (Inr (gas_limit, tx, signed), evs) \<Rightarrow>
          (case try_send cfg w3 from_acct to_addr nonce_key gas_limit signed nonces of
             (Inr tx_hash, nonces', evs_send) \<Rightarrow> (Inr (Some tx_hash), nonces', evs @ evs_send)
           | (Inl e, nonces', evs_send) \<Rightarrow>
               (let (nonces'', evs_err) = on_send_error w3 from_acct nonce_key e nonces'
                in (Inr None, nonces'', evs @ evs_send @ evs_err))))"

subsection \<open>\<^verbatim>\<open>main_loop\<close> (lines 131--150)\<close>

record cycle =
  cy_turn :: int
  cy_from :: account
  cy_to :: string
  cy_key :: string
  cy_result :: "exn + string option"
  cy_events :: "event list"

text \<open>
  What the surroundings do during one pass of the loop: how the node answers, and what
  \<^verbatim>\<open>time.sleep(delay)\<close> of line 149 does with the delay drawn at line 147. The sleep
  returns (\<open>None\<close>) or raises (\<open>Some e\<close>): \<^verbatim>\<open>MIN_DELAY_SEC\<close> and \<^verbatim>\<open>MAX_DELAY_SEC\<close> are
  any floats, and \<^verbatim>\<open>time.sleep\<close> raises for a negative or NaN delay and for one too large.
\<close>

record loop_pass =
  pass_node :: web3
  pass_sleep :: "exn option"

text \<open>
  One pass through the body of the \<^verbatim>\<open>while\<close> (lines 134--150). The sleep is outside the
  \<^verbatim>\<open>try\<close> of line 143 and before \<^verbatim>\<open>turn += 1\<close>: when it raises, the pass ends with that
  exception (\<open>Inl e\<close>) and the turn is not advanced; otherwise the pass ends with the
  next turn.
\<close>

definition loop_body ::
  "config \<Rightarrow> loop_pass \<Rightarrow> int \<Rightarrow> (string \<rightharpoonup> int) \<Rightarrow> cycle \<times> (exn + int) \<times> (string \<rightharpoonup> int)" where
  "loop_body cfg p turn nonces =
     (let (send_from, to, nkey) =
            (if turn mod 2 = 0 then (acct_a cfg, address (acct_b cfg), ''A'')
             else (acct_b cfg, address (acct_a cfg), ''B''));
          (r, nonces', evs) = build_and_send cfg (pass_node p) send_from to nkey nonces;
          evs = evs @ (case r of Inl e \<Rightarrow> [Print (RoutineException e)] | Inr h \<Rightarrow> []) @ [Print Waiting]
      in (\<lparr>cy_turn = turn, cy_from = send_from, cy_to = to, cy_key = nkey,
           cy_result = r, cy_events = evs\<rparr>,
          (case pass_sleep p of Some e \<Rightarrow> Inl e | None \<Rightarrow> Inr (turn + 1)),
          nonces'))"

text \<open>
  The loop never ends by itself, so a run is observed over its first passes. It does end
  when an exception leaves a pass: the passes after that one do not run. The result is
  the passes that ran, the turn and the dictionary at the end, and the exception that
  left the loop, if any.
\<close>

fun run_loop ::
  "config \<Rightarrow> loop_pass list \<Rightarrow> int \<Rightarrow> (string \<rightharpoonup> int)
     \<Rightarrow> cycle list \<times> int \<times> (string \<rightharpoonup> int) \<times> exn option" where
  "run_loop cfg [] turn nonces = ([], turn, nonces, None)"
| "run_loop cfg (p # rest) turn nonces =
     (let (c, t, nonces') = loop_body cfg p turn nonces
      in case t of
           Inl e \<Rightarrow> ([c], turn, nonces', Some e)
         | Inr turn' \<Rightarrow>
             (let (cs, turn'', nonces'', x) = run_loop cfg rest turn' nonces'
              in (c # cs, turn'', nonces'', x)))"

definition main_loop ::
  "config \<Rightarrow> loop_pass list \<Rightarrow> (string \<rightharpoonup> int)
     \<Rightarrow> cycle list \<times> int \<times> (string \<rightharpoonup> int) \<times> exn option" where
  "main_loop cfg passes nonces = run_loop cfg passes 0 nonces"

definition nonces_of_run :: "cycle list \<times> int \<times> (string \<rightharpoonup> int) \<times> exn option \<Rightarrow> (string \<rightharpoonup> int)" where
  \<comment> \<open>The dictionary at the end of a run.\<close>
  "nonces_of_run run = fst (snd (snd run))"

subsection \<open>Reading a list of events\<close>

definition signed_txs :: "event list \<Rightarrow> pydict list" where
  "signed_txs evs = [tx. Call (SignTransaction tx) \<leftarrow> evs]"

definition tx_nonce :: "pydict \<Rightarrow> int option" where
  "tx_nonce tx = (case map_of tx ''nonce'' of Some (PInt n) \<Rightarrow> Some n | _ \<Rightarrow> None)"

definition tx_gas :: "pydict \<Rightarrow> int option" where
  "tx_gas tx = (case map_of tx ''gas'' of Some (PInt n) \<Rightarrow> Some n | _ \<Rightarrow> None)"

definition broadcasts :: "event list \<Rightarrow> string list" where
  "broadcasts evs = [raw. Call (SendRawTransaction raw) \<leftarrow> evs]"

definition receipt_waits :: "event list \<Rightarrow> (string \<times> int \<times> int) list" where
  "receipt_waits evs = [(h, t, p). Call (WaitForTransactionReceipt h t p) \<leftarrow> evs]"

definition count_queries :: "event list \<Rightarrow> (string \<times> string) list" where
  "count_queries evs = [(a, b). Call (GetTransactionCount a b) \<leftarrow> evs]"

definition submitted :: "event list \<Rightarrow> int list" where
  \<comment> \<open>The sequence numbers on the lines of line 102: the broadcasts the node accepted.\<close>
  "submitted evs = [n. Print (TxSubmitted h f t n g) \<leftarrow> evs]"

definition resets :: "event list \<Rightarrow> int list" where
  \<comment> \<open>The values on the lines of line 122: the stores of line 123.\<close>
  "resets evs = [v. Print (NonceReset a v) \<leftarrow> evs]"

definition printed :: "event list \<Rightarrow> line list" where
  "printed evs = [l. Print l \<leftarrow> evs]"

subsection \<open>Reading the outcome of a call\<close>

definition result_of :: "'r \<times> 's \<times> 'e \<Rightarrow> 'r" where
  "result_of x = fst x"

definition nonces_after :: "'r \<times> 's \<times> 'e \<Rightarrow> 's" where
  "nonces_after x = fst (snd x)"

definition events_of :: "'r \<times> 's \<times> 'e \<Rightarrow> 'e" where
  "events_of x = snd (snd x)"

subsection \<open>A configuration and nodes to run the model on\<close>

definition cfg0 :: config where
  "cfg0 = \<lparr>acct_a = \<lparr>address = ''0xA'', key = ''ka''\<rparr>,
           acct_b = \<lparr>address = ''0xB'', key = ''kb''\<rparr>,
           AMOUNT_ETH = ''0.01'', WAIT_FOR_CONFIRMATIONS = 1\<rparr>"

definition node_ok :: web3 where
  \<comment> \<open>A node on which every call succeeds: base fee 100, recommended priority fee 10.\<close>
  "node_ok =
     \<lparr>to_wei = (\<lambda>amount unit. Inr 10000000000000000),
      chain_id = Inr 1,
      estimate_gas = (\<lambda>tx. Inr 100000),
      get_block = (\<lambda>b. Inr [''baseFeePerGas'' \<mapsto> 100]),
      max_priority_fee = Inr 10,
      gas_price = Inr 50,
      sign_transaction = (\<lambda>tx k. Inr ''signed''),
      send_raw_transaction = (\<lambda>raw. Inr ''0xh''),
      wait_for_transaction_receipt = (\<lambda>h t p. Inr \<lparr>blockNumber = 1, status = 1\<rparr>),
      get_transaction_count = (\<lambda>a b. Inr 40)\<rparr>"

definition nonces0 :: "string \<rightharpoonup> int" where
  "nonces0 = [''A'' \<mapsto> 7, ''B'' \<mapsto> 3]"

definition node_legacy :: web3 where
  \<comment> \<open>A node whose blocks carry no base fee.\<close>
  "node_legacy = node_ok\<lparr>get_block := (\<lambda>b. Inr Map.empty)\<rparr>"

definition node_no_estimate :: web3 where
  "node_no_estimate = node_ok\<lparr>estimate_gas := (\<lambda>tx. Inl (Exn OtherException ''execution reverted''))\<rparr>"

definition node_high_fee :: web3 where
  "node_high_fee = node_ok\<lparr>get_block := (\<lambda>b. Inr [''baseFeePerGas'' \<mapsto> 2251799813685247])\<rparr>"

definition node_high_gas :: web3 where
  "node_high_gas = node_ok\<lparr>estimate_gas := (\<lambda>tx. Inr 553025014366359)\<rparr>"

definition node_funds :: web3 where
  \<comment> \<open>The broadcast is rejected for a reason that has nothing to do with the sequence number.\<close>
  "node_funds = node_ok\<lparr>send_raw_transaction :=
     (\<lambda>raw. Inl (Exn OtherException ''insufficient funds for gas * price + value''))\<rparr>"

definition node_conflict :: web3 where
  "node_conflict = node_ok\<lparr>send_raw_transaction :=
     (\<lambda>raw. Inl (Exn OtherException ''nonce too low''))\<rparr>"

definition node_conflict_down :: web3 where
  \<comment> \<open>The broadcast is rejected for its sequence number, and the query that follows fails too.\<close>
  "node_conflict_down = node_conflict\<lparr>get_transaction_count :=
     (\<lambda>a b. Inl (Exn OtherException ''connection refused''))\<rparr>"

definition node_no_block :: web3 where
  "node_no_block = node_ok\<lparr>get_block := (\<lambda>b. Inl (Exn OtherException ''read timed out''))\<rparr>"

definition node_wait_timeout :: web3 where
  "node_wait_timeout = node_ok\<lparr>wait_for_transaction_receipt :=
     (\<lambda>h t p. Inl (Exn TimeExhausted ''not in the chain after 120 seconds''))\<rparr>"

definition node_wait_error :: web3 where
  \<comment> \<open>The broadcast is accepted, then the wait for the receipt fails, not by timing out.\<close>
  "node_wait_error = node_ok\<lparr>wait_for_transaction_receipt :=
     (\<lambda>h t p. Inl (Exn OtherException ''bad response: nonce field missing''))\<rparr>"

definition node_wait_error_down :: web3 where
  "node_wait_error_down = node_wait_error\<lparr>get_transaction_count :=
     (\<lambda>a b. Inl (Exn OtherException ''connection refused''))\<rparr>"

definition cfg_negative :: config where
  "cfg_negative = cfg0\<lparr>WAIT_FOR_CONFIRMATIONS := - 1\<rparr>"

definition example_tx :: "string \<Rightarrow> int \<Rightarrow> pydict" where
  \<comment> \<open>The transaction built on \<open>node_ok\<close> for the receiver \<open>t\<close> with sequence number \<open>n\<close>.\<close>
  "example_tx t n =
     [(''to'', PStr t), (''value'', PInt 10000000000000000), (''nonce'', PInt n),
      (''chainId'', PInt 1), (''gas'', PInt 110000), (''maxPriorityFeePerGas'', PInt 10),
      (''maxFeePerGas'', PInt 260)]"

definition example_prefix :: "account \<Rightarrow> string \<Rightarrow> int \<Rightarrow> event list" where
  \<comment> \<open>The events of building and signing it.\<close>
  "example_prefix a t n =
     [Call ChainId,
      Call (EstimateGas [(''to'', PStr t), (''value'', PInt 10000000000000000),
                         (''nonce'', PInt n), (''chainId'', PInt 1), (''from'', PStr (address a))]),
      Call (GetBlock ''latest''), Call MaxPriorityFee, Call (SignTransaction (example_tx t n))]"

definition cycle_summary :: "cycle \<Rightarrow> int \<times> string \<times> int option list \<times> int list \<times> int list" where
  \<comment> \<open>Turn, key, sequence numbers signed, sequence numbers accepted, values stored by a resync.\<close>
  "cycle_summary c =
     (cy_turn c, cy_key c, map tx_nonce (signed_txs (cy_events c)),
      submitted (cy_events c), resets (cy_events c))"

definition node_no_priority :: web3 where
  \<comment> \<open>The node has no recommendation for the priority fee.\<close>
  "node_no_priority = node_ok\<lparr>max_priority_fee := Inl (Exn OtherException ''method not found'')\<rparr>"

definition quiet :: "web3 \<Rightarrow> loop_pass" where
  \<comment> \<open>A pass on the node \<open>w3\<close> whose sleep returns.\<close>
  "quiet w3 = \<lparr>pass_node = w3, pass_sleep = None\<rparr>"

definition sleep_fails :: "web3 \<Rightarrow> loop_pass" where
  \<comment> \<open>A pass on the node \<open>w3\<close> whose sleep raises: the \<^verbatim>\<open>ValueError\<close> of \<^verbatim>\<open>time.sleep(-1.0)\<close>,
      as with \<^verbatim>\<open>MIN_DELAY_SEC = MAX_DELAY_SEC = -1\<close>.\<close>
  "sleep_fails w3 =
     \<lparr>pass_node = w3, pass_sleep = Some (Exn OtherException ''sleep length must be non-negative'')\<rparr>"

section \<open>Properties\<close>

subsection \<open>Rounding to a double\<close>

lemma bit_length_less: "n < 2 ^ bit_length n"
proof (induction n rule: bit_length.induct)
  case (1 n)
  show ?case
  proof (cases "n = 0")
    case True
    then show ?thesis by (simp add: bit_length.simps)
  next
    case False
    with 1 have "n div 2 < 2 ^ bit_length (n div 2)" by simp
    then have "n < 2 * 2 ^ bit_length (n div 2)" by linarith
    with False show ?thesis by (subst bit_length.simps) simp
  qed
qed

lemma bit_length_ge: "0 < n \<Longrightarrow> 2 ^ bit_length n \<le> 2 * n"
proof (induction n rule: bit_length.induct)
  case (1 n)
  show ?case
  proof (cases "n div 2 = 0")
    case True
    with 1(2) have "n = 1" by linarith
    then show ?thesis by (simp add: bit_length.simps)
  next
    case False
    with 1 have "2 ^ bit_length (n div 2) \<le> 2 * (n div 2)" by simp
    then have "2 * 2 ^ bit_length (n div 2) \<le> 2 * n" by linarith
    with 1(2) show ?thesis by (subst bit_length.simps) simp
  qed
qed

lemma bit_length_le: "n < 2 ^ k \<Longrightarrow> bit_length n \<le> k"
proof (rule ccontr)
  assume a: "n < 2 ^ k" and b: "\<not> bit_length n \<le> k"
  then have "Suc k \<le> bit_length n" by simp
  then have "(2::nat) ^ Suc k \<le> 2 ^ bit_length n" by (rule power_increasing) simp
  moreover have "0 < n" using b by (cases "n = 0") (simp_all add: bit_length.simps)
  ultimately have "(2::nat) ^ Suc k \<le> 2 * n" using bit_length_ge [of n] by linarith
  with a show False by simp
qed

lemma round53_small: "n < 2 ^ 53 \<Longrightarrow> round53 n = n"
  by (simp add: round53_def bit_length_le)

lemma round53_bounds:
  assumes "53 < bit_length n"
  defines "s \<equiv> bit_length n - 53"
  shows "(n div 2 ^ s) * 2 ^ s \<le> round53 n" and "2 * round53 n \<le> 2 * n + 2 ^ s"
proof -
  let ?q = "n div 2 ^ s" and ?r = "n mod 2 ^ s"
  have n: "n = ?q * 2 ^ s + ?r" using div_mult_mod_eq [of n "2 ^ s"] by linarith
  have up: "round53 n = (if 2 ^ s < 2 * ?r \<or> (2 * ?r = 2 ^ s \<and> odd ?q) then (?q + 1) * 2 ^ s else ?q * 2 ^ s)"
    using assms(1) by (simp add: round53_def s_def Let_def)
  show "?q * 2 ^ s \<le> round53 n" by (simp add: up)
  show "2 * round53 n \<le> 2 * n + 2 ^ s"
  proof (cases "2 ^ s < 2 * ?r \<or> (2 * ?r = 2 ^ s \<and> odd ?q)")
    case True
    then have "round53 n = ?q * 2 ^ s + 2 ^ s" and "2 ^ s \<le> 2 * ?r" using up by auto
    then show ?thesis using n by linarith
  next
    case False
    then have "round53 n = ?q * 2 ^ s" using up by auto
    then show ?thesis using n by linarith
  qed
qed


lemma round53_1_1:
  fixes e :: nat
  assumes e: "e < 2 ^ 48"
  defines "R \<equiv> round53 (e * 4953959590107546)"
  shows "(11 * e div 10) * 2 ^ 52 \<le> R \<and> R < (11 * e div 10 + 1) * 2 ^ 52"
proof (cases "e \<le> 1")
  case True
  then have "e = 0 \<or> e = 1" by linarith
  then show ?thesis
    by (auto simp: R_def round53_small)
next
  case False
  define N where "N = e * 4953959590107546"
  define a where "a = 11 * e div 10"
  define s where "s = bit_length N - 53"
  define P :: nat where "P = 2 ^ s"
  have N53: "2 ^ 53 \<le> N" using False by (simp add: N_def)
  have "\<not> bit_length N \<le> 53"
  proof
    assume "bit_length N \<le> 53"
    then have "(2::nat) ^ bit_length N \<le> 2 ^ 53" by (rule power_increasing) simp
    with bit_length_less [of N] N53 show False by linarith
  qed
  then have big: "53 < bit_length N" by simp
  have "N < 2 ^ 101" using e by (simp add: N_def)
  then have "bit_length N \<le> 101" by (rule bit_length_le)
  then have s48: "s \<le> 48" by (simp add: s_def)
  then have P48: "P \<le> 2 ^ 48" unfolding P_def by (rule power_increasing) simp
  have lo: "(N div P) * P \<le> R" and hi: "2 * R \<le> 2 * N + P"
    using round53_bounds [OF big] by (simp_all add: R_def N_def s_def P_def)
  define K :: nat where "K = 2 ^ (52 - s)"
  define T :: nat where "T = 2 ^ 52"
  have Ppos: "0 < P" by (simp add: P_def)
  have "(2::nat) ^ 52 = 2 ^ (52 - s) * 2 ^ s"
    using s48 by (simp flip: power_add)
  then have split: "T = K * P" by (simp only: P_def K_def T_def)
  have aN: "a * T \<le> N" by (simp add: a_def N_def T_def)
  then have "a * K * P \<le> N" by (simp add: split mult.assoc)
  then have "a * K \<le> N div P"
    using Ppos by (simp add: less_eq_div_iff_mult_less_eq)
  then have "a * K * P \<le> (N div P) * P" by (rule mult_le_mono1)
  then have "a * T \<le> (N div P) * P" by (simp add: split mult.assoc)
  with lo have lower: "a * 2 ^ 52 \<le> R" by (simp add: T_def)
  have "2 * N + P < 2 * ((a + 1) * 2 ^ 52)"
    using P48 e by (simp add: a_def N_def)
  with hi have upper: "R < (a + 1) * 2 ^ 52" by linarith
  from lower upper show ?thesis by (simp add: a_def)
qed

lemma round53_1_1_div:
  fixes e :: nat
  assumes "e < 2 ^ 48"
  shows "round53 (e * 4953959590107546) div 2 ^ 52 = 11 * e div 10"
  using round53_1_1 [OF assms] by (intro div_nat_eqI) (simp_all add: mult.commute)

lemma round53_1_1_finite:
  fixes e :: nat
  assumes "e < 2 ^ 48"
  shows "bit_length (round53 (e * 4953959590107546)) \<le> 1076"
proof -
  have "11 * e div 10 + 1 \<le> 2 ^ 50" using assms by simp
  then have "(11 * e div 10 + 1) * 2 ^ 52 \<le> 2 ^ 50 * 2 ^ 52" by (rule mult_le_mono1)
  with round53_1_1 [OF assms] have "round53 (e * 4953959590107546) < 2 ^ 1076" 
    by simp
  then show ?thesis by (rule bit_length_le)
qed

lemma float_1_1_nearest:
  \<comment> \<open>The literal is a 53-bit significand, within half a unit in the last place of 11/10.\<close>
  "2 ^ 52 \<le> fst float_1_1 \<and> fst float_1_1 < 2 ^ 53 \<and> snd float_1_1 = 52 \<and>
   \<bar>10 * int (fst float_1_1) - 11 * 2 ^ 52\<bar> \<le> 5"
  by (simp add: float_1_1_def)

lemma int_to_float_exact: "\<bar>i\<bar> < 2 ^ 53 \<Longrightarrow> int_to_float i = Inr i"
proof -
  assume a: "\<bar>i\<bar> < 2 ^ 53"
  then have n: "nat \<bar>i\<bar> < 2 ^ 53" by (simp add: nat_less_iff)
  then have "bit_length (nat \<bar>i\<bar>) \<le> 53" by (rule bit_length_le)
  then have "\<not> 1024 < bit_length (nat \<bar>i\<bar>)" by simp
  moreover have "sgn i * \<bar>i\<bar> = i" by (simp add: mult_sgn_abs)
  ultimately show ?thesis using n by (simp add: int_to_float_def round53_small)
qed

lemma floor_times_1_1:
  assumes "0 \<le> e" and "e < 2 ^ 48"
  shows "(case int_times_float e float_1_1 of Inl x \<Rightarrow> Inl x | Inr f \<Rightarrow> math_floor f) = Inr (11 * e div 10)"
proof -
  let ?R = "round53 (nat e * 4953959590107546)"
  have small: "nat e < 2 ^ 48" using assms by (simp add: nat_less_iff)
  have "\<bar>e\<bar> < 2 ^ 53" using assms by simp
  then have conv: "int_to_float e = Inr e" by (rule int_to_float_exact)
  have fin: "\<not> 1024 + 52 < bit_length ?R" using round53_1_1_finite [OF small] by simp
  have sg: "sgn e * int ?R = int ?R"
  proof (cases "e = 0")
    case True
    then show ?thesis by (simp add: round53_small)
  next
    case False
    with assms(1) show ?thesis by simp
  qed
  have "int ?R div 2 ^ 52 = int (?R div 2 ^ 52)" by (simp add: zdiv_int)
  also have "\<dots> = int (11 * nat e div 10)" by (simp only: round53_1_1_div [OF small])
  also have "\<dots> = 11 * e div 10" using assms(1) by (simp add: zdiv_int)
  finally have "int ?R div 2 ^ 52 = 11 * e div 10" .
  then have "(sgn e * int ?R) div 2 ^ 52 = 11 * e div 10" by (simp only: sg)
  with conv fin assms(1) show ?thesis
    by (simp add: int_times_float_def float_mul_def float_1_1_def math_floor_def Let_def)
qed

lemma int_times_2_5:
  assumes "0 \<le> b" and "b < 2 ^ 50"
  shows "(case int_times_float b float_2_5 of Inl x \<Rightarrow> Inl x | Inr f \<Rightarrow> int_of_float f) = Inr (5 * b div 2)"
proof -
  have "\<bar>b\<bar> < 2 ^ 53" using assms by simp
  then have conv: "int_to_float b = Inr b" by (rule int_to_float_exact)
  have small: "nat b * 5 < 2 ^ 53" using assms by (simp add: nat_less_iff)
  then have r: "round53 (nat b * 5) = nat b * 5" by (rule round53_small)
  have "bit_length (nat b * 5) \<le> 53" using small by (rule bit_length_le)
  then have fin: "\<not> 1024 + 1 < bit_length (nat b * 5)" by simp
  have "sgn (sgn b * (b * 5)) * (\<bar>sgn b * (b * 5)\<bar> div 2) = 5 * b div 2"
    using assms(1) by (cases "b = 0") simp_all
  with conv r fin assms(1) show ?thesis
    by (simp add: int_times_float_def float_mul_def float_2_5_def int_of_float_def Let_def)
qed

lemma floor_1_1_real: "\<lfloor>1.1 * real_of_int e\<rfloor> = 11 * e div 10"
proof -
  have "1.1 * real_of_int e = real_of_int (11 * e) / real_of_int 10" by simp
  then show ?thesis by (simp only: floor_divide_of_int_eq)
qed

lemma floor_2_5_real: "\<lfloor>2.5 * real_of_int b\<rfloor> = 5 * b div 2"
proof -
  have "2.5 * real_of_int b = real_of_int (5 * b) / real_of_int 2" by simp
  then show ?thesis by (simp only: floor_divide_of_int_eq)
qed

lemmas float_eval = int_times_float_def int_to_float_def float_mul_def math_floor_def int_of_float_def
  round53_def bit_length.simps Let_def float_1_1_def float_2_5_def

lemma floor_2_5_real': "\<lfloor>5 * real_of_int b / 2\<rfloor> = 5 * b div 2"
  using floor_2_5_real [of b] by simp

lemma floor_1_1_real': "\<lfloor>11 * real_of_int e / 10\<rfloor> = 11 * e div 10"
  using floor_1_1_real [of e] by simp

subsection \<open>The events and the outcome of \<^verbatim>\<open>build_and_send\<close>\<close>

lemmas proj_defs = signed_txs_def broadcasts_def receipt_waits_def count_queries_def submitted_def
  resets_def printed_def

lemma proj_Nil [simp]:
  "signed_txs [] = []" "broadcasts [] = []" "receipt_waits [] = []"
  "count_queries [] = []" "submitted [] = []" "resets [] = []" "printed [] = []"
  by (simp_all add: proj_defs)

lemma proj_Call [simp]:
  "signed_txs (Call c # evs) = (case c of SignTransaction tx \<Rightarrow> [tx] | _ \<Rightarrow> []) @ signed_txs evs"
  "broadcasts (Call c # evs) = (case c of SendRawTransaction raw \<Rightarrow> [raw] | _ \<Rightarrow> []) @ broadcasts evs"
  "receipt_waits (Call c # evs) =
     (case c of WaitForTransactionReceipt h t p \<Rightarrow> [(h, t, p)] | _ \<Rightarrow> []) @ receipt_waits evs"
  "count_queries (Call c # evs) =
     (case c of GetTransactionCount a b \<Rightarrow> [(a, b)] | _ \<Rightarrow> []) @ count_queries evs"
  "submitted (Call c # evs) = submitted evs"
  "resets (Call c # evs) = resets evs"
  "printed (Call c # evs) = printed evs"
  by (simp_all add: proj_defs)

lemma proj_Print [simp]:
  "signed_txs (Print l # evs) = signed_txs evs"
  "broadcasts (Print l # evs) = broadcasts evs"
  "receipt_waits (Print l # evs) = receipt_waits evs"
  "count_queries (Print l # evs) = count_queries evs"
  "submitted (Print l # evs) = (case l of TxSubmitted h f t n g \<Rightarrow> [n] | _ \<Rightarrow> []) @ submitted evs"
  "resets (Print l # evs) = (case l of NonceReset a v \<Rightarrow> [v] | _ \<Rightarrow> []) @ resets evs"
  "printed (Print l # evs) = l # printed evs"
  by (simp_all add: proj_defs)

lemma proj_append [simp]:
  "signed_txs (xs @ ys) = signed_txs xs @ signed_txs ys"
  "broadcasts (xs @ ys) = broadcasts xs @ broadcasts ys"
  "receipt_waits (xs @ ys) = receipt_waits xs @ receipt_waits ys"
  "count_queries (xs @ ys) = count_queries xs @ count_queries ys"
  "submitted (xs @ ys) = submitted xs @ submitted ys"
  "resets (xs @ ys) = resets xs @ resets ys"
  "printed (xs @ ys) = printed xs @ printed ys"
  by (simp_all add: proj_defs)

lemma gas_estimate_events [simp]:
  "signed_txs (snd (gas_estimate w3 a tx)) = []"
  "broadcasts (snd (gas_estimate w3 a tx)) = []"
  "receipt_waits (snd (gas_estimate w3 a tx)) = []"
  "count_queries (snd (gas_estimate w3 a tx)) = []"
  "submitted (snd (gas_estimate w3 a tx)) = []"
  "resets (snd (gas_estimate w3 a tx)) = []"
  by (simp_all add: gas_estimate_def Let_def split: sum.splits)

lemma compute_fee_values_events [simp]:
  "signed_txs (snd (compute_fee_values w3)) = []"
  "broadcasts (snd (compute_fee_values w3)) = []"
  "receipt_waits (snd (compute_fee_values w3)) = []"
  "count_queries (snd (compute_fee_values w3)) = []"
  "submitted (snd (compute_fee_values w3)) = []"
  "resets (snd (compute_fee_values w3)) = []"
  by (simp_all add: compute_fee_values_def Let_def split: sum.splits option.splits)

lemma fee_shape:
  "fst (compute_fee_values w3) = Inr fv \<Longrightarrow>
     (\<exists>p m. fv = [(''maxPriorityFeePerGas'', PInt p), (''maxFeePerGas'', PInt m)]) \<or>
     (\<exists>gp. fv = [(''gasPrice'', PInt gp)])"
  by (auto simp: compute_fee_values_def Let_def split: sum.splits option.splits)


lemma try_send_frame:
  "try_send cfg w3 a t K g raw ns = (r, ns', evs) \<Longrightarrow> k \<noteq> K \<Longrightarrow> ns' k = ns k"
  by (auto simp: try_send_def Let_def split: sum.splits option.splits if_splits)

lemma on_send_error_frame:
  "on_send_error w3 a K e ns = (ns', evs) \<Longrightarrow> k \<noteq> K \<Longrightarrow> ns' k = ns k"
  by (auto simp: on_send_error_def Let_def split: sum.splits if_splits)

lemma merge_fee_nonce:
  assumes "compute_fee_values w3 = (Inr fv, evs)"
  shows "tx_nonce (dict_merge [(''to'', t), (''value'', v), (''nonce'', PInt n), (''chainId'', c), (''gas'', PInt g)] fv) = Some n"
    and "tx_gas (dict_merge [(''to'', t), (''value'', v), (''nonce'', PInt n), (''chainId'', c), (''gas'', PInt g)] fv) = Some g"
  using fee_shape [of w3 fv] assms by (auto simp: dict_merge_def tx_nonce_def tx_gas_def)

lemma merge_fee_to:
  assumes "fst (compute_fee_values w3) = Inr fv"
  shows "map_of (dict_merge [(''to'', t), (''value'', v), (''nonce'', n), (''chainId'', c), (''gas'', g)] fv) ''to'' = Some t"
  using fee_shape [OF assms] by (auto simp: dict_merge_def)

lemma build_signed_events [simp]:
  "broadcasts (snd (build_signed cfg w3 a t K ns)) = []"
  "receipt_waits (snd (build_signed cfg w3 a t K ns)) = []"
  "count_queries (snd (build_signed cfg w3 a t K ns)) = []"
  "submitted (snd (build_signed cfg w3 a t K ns)) = []"
  "resets (snd (build_signed cfg w3 a t K ns)) = []"
  by (simp_all add: build_signed_def Let_def case_prod_beta split: sum.splits option.splits)

lemma build_signed_Inr:
  assumes "build_signed cfg w3 a t K ns = (Inr (g, tx, raw), evs)"
  shows "\<exists>n. ns K = Some n \<and> tx_nonce tx = Some n" and "tx_gas tx = Some g"
    and "signed_txs evs = [tx]" and "sign_transaction w3 tx (key a) = Inr raw"
    and "\<exists>v n c. to_wei w3 (AMOUNT_ETH cfg) ''ether'' = Inr v \<and> ns K = Some n \<and> chain_id w3 = Inr c \<and>
           g = fst (gas_estimate w3 a [(''to'', PStr t), (''value'', PInt v), (''nonce'', PInt n), (''chainId'', PInt c)])"
proof -
  from assms obtain v n c evs_gas fv evs_fee where
    v: "to_wei w3 (AMOUNT_ETH cfg) ''ether'' = Inr v" and c: "chain_id w3 = Inr c" and
    n: "ns K = Some n" and
    gas: "gas_estimate w3 a [(''to'', PStr t), (''value'', PInt v), (''nonce'', PInt n), (''chainId'', PInt c)] = (g, evs_gas)" and
    fee: "compute_fee_values w3 = (Inr fv, evs_fee)" and
    tx: "tx = dict_merge [(''to'', PStr t), (''value'', PInt v), (''nonce'', PInt n), (''chainId'', PInt c), (''gas'', PInt g)] fv" and
    raw: "sign_transaction w3 tx (key a) = Inr raw" and
    evs: "evs = Call ChainId # evs_gas @ evs_fee @ [Call (SignTransaction tx)]"
    by (auto simp: build_signed_def Let_def split: sum.splits option.splits prod.splits)
  from n tx merge_fee_nonce [OF fee] show "\<exists>n. ns K = Some n \<and> tx_nonce tx = Some n" and "tx_gas tx = Some g"
    by simp_all
  from raw show "sign_transaction w3 tx (key a) = Inr raw" .
  have "signed_txs evs_gas = []" using gas_estimate_events(1) [of w3 a] gas by (metis snd_conv)
  moreover have "signed_txs evs_fee = []" using compute_fee_values_events(1) [of w3] fee by simp
  ultimately show "signed_txs evs = [tx]" by (simp add: evs)
  from v n c gas show "\<exists>v n c. to_wei w3 (AMOUNT_ETH cfg) ''ether'' = Inr v \<and> ns K = Some n \<and> chain_id w3 = Inr c \<and>
           g = fst (gas_estimate w3 a [(''to'', PStr t), (''value'', PInt v), (''nonce'', PInt n), (''chainId'', PInt c)])"
    by auto
qed

lemma build_signed_Inl:
  assumes "build_signed cfg w3 a t K ns = (Inl e, evs)"
  shows "signed_txs evs = [] \<or> (\<exists>tx. signed_txs evs = [tx] \<and> sign_transaction w3 tx (key a) = Inl e)"
  using assms
  by (auto simp: build_signed_def Let_def case_prod_beta split: sum.splits option.splits)


lemma build_signed_built:
  assumes "build_signed cfg w3 a t K ns = (b, evs)"
  shows "signed_txs evs = [] \<or>
         (\<exists>n tx. ns K = Some n \<and> signed_txs evs = [tx] \<and> tx_nonce tx = Some n)"
proof (cases b)
  case (Inr gtr)
  obtain g tx raw where "gtr = (g, tx, raw)" by (cases gtr)
  with assms Inr have b: "build_signed cfg w3 a t K ns = (Inr (g, tx, raw), evs)" by simp
  from build_signed_Inr(1,3) [OF b] show ?thesis by auto
next
  case (Inl e)
  have fee: "tx_nonce (dict_merge [(''to'', t'), (''value'', v), (''nonce'', PInt n), (''chainId'', c),
                 (''gas'', PInt g)] fv) = Some n"
    if "fst (compute_fee_values w3) = Inr fv" for t' v n c g fv
    using merge_fee_nonce(1) [of w3 fv "snd (compute_fee_values w3)"] that
    by (metis prod.collapse)
  from assms Inl show ?thesis
    by (auto simp: build_signed_def Let_def case_prod_beta fee split: sum.splits option.splits)
qed

lemma try_send_shape:
  assumes "try_send cfg w3 a t K g raw ns = (rs, ns1, evs)" and "ns K = Some n"
  shows "broadcasts evs = [raw]" and "count_queries evs = []" and "resets evs = []"
    and "signed_txs evs = []"
    and "send_raw_transaction w3 raw = Inl e \<Longrightarrow>
           rs = Inl e \<and> ns1 = ns \<and> submitted evs = [] \<and> receipt_waits evs = [] \<and>
           printed evs = []"
    and "send_raw_transaction w3 raw = Inr h \<Longrightarrow>
           ns1 = ns(K \<mapsto> n + 1) \<and> submitted evs = [n] \<and>
           receipt_waits evs = (if WAIT_FOR_CONFIRMATIONS cfg > 0 then [(h, 120, 2)] else []) \<and>
           rs = (if WAIT_FOR_CONFIRMATIONS cfg > 0 then
                   (case wait_for_transaction_receipt w3 h 120 2 of
                      Inr rc \<Rightarrow> Inr h
                    | Inl x \<Rightarrow> if class_of x = TimeExhausted then Inr h else Inl x)
                 else Inr h)"
  using assms
  by (auto simp: try_send_def Let_def split: sum.splits option.splits if_splits)

lemma on_send_error_shape:
  assumes "on_send_error w3 a K e ns1 = (ns', evs)"
  shows "broadcasts evs = []" and "submitted evs = []" and "signed_txs evs = []"
    and "receipt_waits evs = []"
    and "\<not> nonce_related (str e) \<Longrightarrow>
           ns' = ns1 \<and> count_queries evs = [] \<and> resets evs = [] \<and> printed evs = [SendError (str e)]"
    and "nonce_related (str e) \<Longrightarrow>
           count_queries evs = [(address a, ''pending'')] \<and>
           (case get_transaction_count w3 (address a) ''pending'' of
              Inr v \<Rightarrow> ns' = ns1(K \<mapsto> v) \<and> resets evs = [v] \<and>
                       printed evs = [SendError (str e), NonceReset (address a) v]
            | Inl x \<Rightarrow> ns' = ns1 \<and> resets evs = [] \<and>
                       printed evs = [SendError (str e), NonceRefetchFailed x])"
  using assms
  by (auto simp: on_send_error_def Let_def split: sum.splits if_splits)

lemma build_signed_to:
  assumes "build_signed cfg w3 a t K ns = (b, evs)"
  shows "\<forall>tx\<in>set (signed_txs evs). map_of tx ''to'' = Some (PStr t)"
  using assms
  by (auto simp: build_signed_def Let_def case_prod_beta merge_fee_to split: sum.splits option.splits)

lemma build_and_send_unsent:
  assumes "build_and_send cfg w3 a t K ns = (r, ns', evs)" and "broadcasts evs = []"
  shows "\<exists>e. r = Inl e \<and> ns' = ns \<and> build_signed cfg w3 a t K ns = (Inl e, evs)"
proof (cases "build_signed cfg w3 a t K ns")
  case (Pair b evs0)
  show ?thesis
  proof (cases b)
    case (Inl e)
    with Pair assms(1) show ?thesis by (simp add: build_and_send_def)
  next
    case (Inr gtr)
    obtain g tx raw where gtr: "gtr = (g, tx, raw)" by (cases gtr)
    obtain rs ns1 evs1 where ts: "try_send cfg w3 a t K g raw ns = (rs, ns1, evs1)"
      by (cases "try_send cfg w3 a t K g raw ns")
    from build_signed_Inr(1) [of cfg w3 a t K ns g tx raw evs0] Pair Inr gtr
    obtain n where "ns K = Some n" by auto
    from try_send_shape(1) [OF ts this] have "broadcasts evs1 = [raw]" .
    moreover from assms(1) Pair Inr gtr ts have "\<exists>evs2. evs = evs0 @ evs1 @ evs2"
      by (auto simp: build_and_send_def Let_def split: sum.splits prod.splits)
    ultimately show ?thesis using assms(2) by auto
  qed
qed

lemma build_and_send_sent:
  assumes "build_and_send cfg w3 a t K ns = (r, ns', evs)" and "broadcasts evs \<noteq> []"
  obtains g tx raw n evs0 rs ns1 evs1 evs2 where
    "build_signed cfg w3 a t K ns = (Inr (g, tx, raw), evs0)"
    "ns K = Some n" "tx_nonce tx = Some n"
    "try_send cfg w3 a t K g raw ns = (rs, ns1, evs1)"
    "evs = evs0 @ evs1 @ evs2"
    "case rs of Inr h \<Rightarrow> r = Inr (Some h) \<and> ns' = ns1 \<and> evs2 = []
              | Inl e \<Rightarrow> r = Inr None \<and> on_send_error w3 a K e ns1 = (ns', evs2)"
proof (cases "build_signed cfg w3 a t K ns")
  case (Pair b evs0)
  show ?thesis
  proof (cases b)
    case (Inl e)
    with Pair assms(1) have "evs = snd (build_signed cfg w3 a t K ns)"
      by (simp add: build_and_send_def)
    then have "broadcasts evs = []" by simp
    with assms(2) show ?thesis by simp
  next
    case (Inr gtr)
    obtain g tx raw where gtr: "gtr = (g, tx, raw)" by (cases gtr)
    obtain rs ns1 evs1 where ts: "try_send cfg w3 a t K g raw ns = (rs, ns1, evs1)"
      by (cases "try_send cfg w3 a t K g raw ns")
    from build_signed_Inr(1) [of cfg w3 a t K ns g tx raw evs0] Pair Inr gtr
    obtain n where n: "ns K = Some n" "tx_nonce tx = Some n" by auto
    show ?thesis
    proof (cases rs)
      case (Inl e)
      obtain ns2 evs2 where "on_send_error w3 a K e ns1 = (ns2, evs2)"
        by (cases "on_send_error w3 a K e ns1")
      with assms(1) Pair Inr gtr ts Inl n show ?thesis
        by (intro that [of g tx raw evs0 n rs ns1 evs1 evs2]) (auto simp: build_and_send_def)
    next
      case (Inr h)
      with assms(1) Pair \<open>b = Inr gtr\<close> gtr ts n show ?thesis
        by (intro that [of g tx raw evs0 n rs ns1 evs1 "[]"]) (auto simp: build_and_send_def)
    qed
  qed
qed

lemma build_and_send_broadcast:
  assumes "build_and_send cfg w3 a t K ns = (r, ns', evs)" and "broadcasts evs = [raw]"
  obtains g tx n evs0 rs ns1 evs1 evs2 where
    "build_signed cfg w3 a t K ns = (Inr (g, tx, raw), evs0)"
    "ns K = Some n" "tx_nonce tx = Some n"
    "try_send cfg w3 a t K g raw ns = (rs, ns1, evs1)"
    "evs = evs0 @ evs1 @ evs2"
    "case rs of Inr h \<Rightarrow> r = Inr (Some h) \<and> ns' = ns1 \<and> evs2 = []
              | Inl e \<Rightarrow> r = Inr None \<and> on_send_error w3 a K e ns1 = (ns', evs2)"
proof -
  from assms(2) have "broadcasts evs \<noteq> []" by simp
  with assms(1) obtain g tx raw' n evs0 rs ns1 evs1 evs2 where
    b: "build_signed cfg w3 a t K ns = (Inr (g, tx, raw'), evs0)" and
    n: "ns K = Some n" "tx_nonce tx = Some n" and
    ts: "try_send cfg w3 a t K g raw' ns = (rs, ns1, evs1)" and
    evs: "evs = evs0 @ evs1 @ evs2" and
    fin: "case rs of Inr h \<Rightarrow> r = Inr (Some h) \<and> ns' = ns1 \<and> evs2 = []
              | Inl e \<Rightarrow> r = Inr None \<and> on_send_error w3 a K e ns1 = (ns', evs2)"
    by (rule build_and_send_sent)
  from b have "evs0 = snd (build_signed cfg w3 a t K ns)" by simp
  then have "broadcasts evs0 = []" by (simp only: build_signed_events)
  moreover have "broadcasts evs1 = [raw']" by (rule try_send_shape(1) [OF ts n(1)])
  ultimately have "raw' = raw" using assms(2) evs by simp
  with b n ts evs fin show ?thesis by (intro that [of g tx evs0 n rs ns1 evs1 evs2]) simp_all
qed

lemma build_signed_prefix:
  assumes "build_signed cfg w3 a t K ns = (b, evs0)"
  shows "broadcasts evs0 = []" "receipt_waits evs0 = []" "count_queries evs0 = []"
    "submitted evs0 = []" "resets evs0 = []"
proof -
  from assms have "evs0 = snd (build_signed cfg w3 a t K ns)" by simp
  then show "broadcasts evs0 = []" "receipt_waits evs0 = []" "count_queries evs0 = []"
    "submitted evs0 = []" "resets evs0 = []"
    by (simp_all only: build_signed_events)
qed

lemma nonce_too_low_related:
  "sublist ''nonce too low'' s \<Longrightarrow> sublist ''nonce'' s"
proof -
  have "sublist ''nonce'' ''nonce too low''" by (simp add: sublist_code)
  then show "sublist ''nonce too low'' s \<Longrightarrow> sublist ''nonce'' s"
    by (rule sublist_order.order_trans)
qed

lemma lower_sublist: "sublist ''nonce'' s \<Longrightarrow> sublist ''nonce'' (lower s)"
proof -
  assume "sublist ''nonce'' s"
  then have "sublist (map lower_char ''nonce'') (map lower_char s)" by (rule map_mono_sublist)
  then show ?thesis by (simp add: lower_def lower_char_def)
qed

lemma build_and_send_other_keys:
  "build_and_send cfg w3 from_acct to_addr nonce_key nonces = (r, nonces', evs) \<Longrightarrow>
     k \<noteq> nonce_key \<Longrightarrow> nonces' k = nonces k"
proof -
  assume bs: "build_and_send cfg w3 from_acct to_addr nonce_key nonces = (r, nonces', evs)"
    and k: "k \<noteq> nonce_key"
  show ?thesis
  proof (cases "broadcasts evs = []")
    case True
    from build_and_send_unsent [OF bs True] show ?thesis by auto
  next
    case False
    from bs False obtain g tx raw n evs0 rs ns1 evs1 evs2 where
      ts: "try_send cfg w3 from_acct to_addr nonce_key g raw nonces = (rs, ns1, evs1)" and
      fin: "case rs of Inr h \<Rightarrow> r = Inr (Some h) \<and> nonces' = ns1 \<and> evs2 = []
              | Inl e \<Rightarrow> r = Inr None \<and> on_send_error w3 from_acct nonce_key e ns1 = (nonces', evs2)"
      by (rule build_and_send_sent)
    from try_send_frame [OF ts k] have "ns1 k = nonces k" .
    moreover from fin k have "nonces' k = ns1 k"
      by (auto split: sum.splits dest: on_send_error_frame)
    ultimately show ?thesis by simp
  qed
qed

lemma build_and_send_nonces:
  assumes bs: "build_and_send cfg w3 a t K ns = (r, ns', evs)"
  shows "submitted evs \<noteq> [] \<Longrightarrow>
           \<exists>n. ns K = Some n \<and> submitted evs = [n] \<and> map tx_nonce (signed_txs evs) = [Some n]"
    and "resets evs = [] \<Longrightarrow> submitted evs = [] \<Longrightarrow> ns' = ns"
    and "resets evs = [] \<Longrightarrow> submitted evs \<noteq> [] \<Longrightarrow> \<exists>n. ns K = Some n \<and> ns' = ns(K \<mapsto> n + 1)"
    and "submitted evs \<noteq> [] \<longleftrightarrow>
           (\<exists>raw h. broadcasts evs = [raw] \<and> send_raw_transaction w3 raw = Inr h)"
proof -
  have all: "(submitted evs \<noteq> [] \<longrightarrow>
           (\<exists>n. ns K = Some n \<and> submitted evs = [n] \<and> map tx_nonce (signed_txs evs) = [Some n])) \<and>
        (resets evs = [] \<longrightarrow> submitted evs = [] \<longrightarrow> ns' = ns) \<and>
        (resets evs = [] \<longrightarrow> submitted evs \<noteq> [] \<longrightarrow> (\<exists>n. ns K = Some n \<and> ns' = ns(K \<mapsto> n + 1))) \<and>
        (submitted evs \<noteq> [] \<longleftrightarrow>
           (\<exists>raw h. broadcasts evs = [raw] \<and> send_raw_transaction w3 raw = Inr h))"
  proof (cases "broadcasts evs = []")
    case True
    from build_and_send_unsent [OF bs True] obtain e where
      e: "ns' = ns" "build_signed cfg w3 a t K ns = (Inl e, evs)" by auto
    from e(2) have "evs = snd (build_signed cfg w3 a t K ns)" by simp
    then have "submitted evs = []" by (simp only: build_signed_events)
    with e(1) True show ?thesis by simp
  next
    case False
    from bs False obtain g tx raw n evs0 rs ns1 evs1 evs2 where
      b: "build_signed cfg w3 a t K ns = (Inr (g, tx, raw), evs0)" and
      n: "ns K = Some n" "tx_nonce tx = Some n" and
      ts: "try_send cfg w3 a t K g raw ns = (rs, ns1, evs1)" and
      evs: "evs = evs0 @ evs1 @ evs2" and
      fin: "case rs of Inr h \<Rightarrow> r = Inr (Some h) \<and> ns' = ns1 \<and> evs2 = []
              | Inl e \<Rightarrow> r = Inr None \<and> on_send_error w3 a K e ns1 = (ns', evs2)"
      by (rule build_and_send_sent)
    from b have "evs0 = snd (build_signed cfg w3 a t K ns)" by simp
    then have p0: "submitted evs0 = []" "resets evs0 = []" "broadcasts evs0 = []"
      by (simp_all only: build_signed_events)
    note s0 = build_signed_Inr(3) [OF b]
    note sh = try_send_shape [OF ts n(1)]
    have p2: "submitted evs2 = [] \<and> broadcasts evs2 = [] \<and> signed_txs evs2 = [] \<and>
              (resets evs2 = [] \<longrightarrow> ns' = ns1)"
    proof (cases rs)
      case (Inl e)
      with fin have oe: "on_send_error w3 a K e ns1 = (ns', evs2)" by simp
      from on_send_error_shape(5,6) [OF oe] have "resets evs2 = [] \<longrightarrow> ns' = ns1"
        by (cases "nonce_related (str e)") (auto split: sum.splits)
      with on_send_error_shape(1-3) [OF oe] show ?thesis by simp
    next
      case (Inr h)
      with fin show ?thesis by simp
    qed
    have br: "broadcasts evs = [raw]" using evs p0 sh(1) p2 by simp
    have sg: "map tx_nonce (signed_txs evs) = [Some n]" using evs s0 sh(4) p2 n(2) by simp
    have rs0: "resets evs = resets evs2" using evs p0 sh(3) by simp
    have sb: "submitted evs = submitted evs1" using evs p0 p2 by simp
    show ?thesis
    proof (cases "send_raw_transaction w3 raw")
      case (Inl e)
      from sh(5) [OF Inl] have "ns1 = ns" "submitted evs1 = []" by simp_all
      with p2 rs0 sb br Inl show ?thesis by simp
    next
      case (Inr h)
      from sh(6) [OF Inr] have "ns1 = ns(K \<mapsto> n + 1)" "submitted evs1 = [n]" by simp_all
      with p2 rs0 sb br Inr n sg show ?thesis by simp
    qed
  qed
  from all show "submitted evs \<noteq> [] \<Longrightarrow>
           \<exists>n. ns K = Some n \<and> submitted evs = [n] \<and> map tx_nonce (signed_txs evs) = [Some n]"
    and "resets evs = [] \<Longrightarrow> submitted evs = [] \<Longrightarrow> ns' = ns"
    and "resets evs = [] \<Longrightarrow> submitted evs \<noteq> [] \<Longrightarrow> \<exists>n. ns K = Some n \<and> ns' = ns(K \<mapsto> n + 1)"
    and "submitted evs \<noteq> [] \<longleftrightarrow>
           (\<exists>raw h. broadcasts evs = [raw] \<and> send_raw_transaction w3 raw = Inr h)"
    by blast+
qed

lemma build_and_send_built:
  assumes bs: "build_and_send cfg w3 a t K ns = (r, ns', evs)"
  shows "signed_txs evs = [] \<or>
         (\<exists>n tx. ns K = Some n \<and> signed_txs evs = [tx] \<and> tx_nonce tx = Some n)"
proof (cases "broadcasts evs = []")
  case True
  from build_and_send_unsent [OF bs True] obtain e where
    "build_signed cfg w3 a t K ns = (Inl e, evs)" by auto
  then show ?thesis by (rule build_signed_built)
next
  case False
  from bs False obtain g tx raw n evs0 rs ns1 evs1 evs2 where
    b: "build_signed cfg w3 a t K ns = (Inr (g, tx, raw), evs0)" and
    n: "ns K = Some n" "tx_nonce tx = Some n" and
    ts: "try_send cfg w3 a t K g raw ns = (rs, ns1, evs1)" and
    evs: "evs = evs0 @ evs1 @ evs2" and
    fin: "case rs of Inr h \<Rightarrow> r = Inr (Some h) \<and> ns' = ns1 \<and> evs2 = []
              | Inl e \<Rightarrow> r = Inr None \<and> on_send_error w3 a K e ns1 = (ns', evs2)"
    by (rule build_and_send_sent)
  have "signed_txs evs2 = []"
    using fin by (cases rs) (auto dest: on_send_error_shape(3))
  with evs build_signed_Inr(3) [OF b] try_send_shape(4) [OF ts n(1)] n show ?thesis by simp
qed

lemma build_and_send_to:
  assumes bs: "build_and_send cfg w3 a t K ns = (r, ns', evs)"
  shows "\<forall>tx\<in>set (signed_txs evs). map_of tx ''to'' = Some (PStr t)"
proof (cases "broadcasts evs = []")
  case True
  from build_and_send_unsent [OF bs True] obtain e where
    "build_signed cfg w3 a t K ns = (Inl e, evs)" by auto
  then show ?thesis by (rule build_signed_to)
next
  case False
  from bs False obtain g tx raw n evs0 rs ns1 evs1 evs2 where
    b: "build_signed cfg w3 a t K ns = (Inr (g, tx, raw), evs0)" and
    n: "ns K = Some n" "tx_nonce tx = Some n" and
    ts: "try_send cfg w3 a t K g raw ns = (rs, ns1, evs1)" and
    evs: "evs = evs0 @ evs1 @ evs2" and
    fin: "case rs of Inr h \<Rightarrow> r = Inr (Some h) \<and> ns' = ns1 \<and> evs2 = []
              | Inl e \<Rightarrow> r = Inr None \<and> on_send_error w3 a K e ns1 = (ns', evs2)"
    by (rule build_and_send_sent)
  have "signed_txs evs2 = []"
    using fin by (cases rs) (auto dest: on_send_error_shape(3))
  with evs try_send_shape(4) [OF ts n(1)] have "signed_txs evs = signed_txs evs0" by simp
  with build_signed_to [OF b] show ?thesis by simp
qed

subsection \<open>The loop\<close>

lemma loop_body_unfold:
  assumes "loop_body cfg p turn ns = (c, turn', ns')"
  shows "turn' = (case pass_sleep p of None \<Rightarrow> Inr (turn + 1) | Some e \<Rightarrow> Inl e)"
    and "cy_turn c = turn"
    and "cy_key c = (if turn mod 2 = 0 then ''A'' else ''B'')"
    and "cy_from c = (if turn mod 2 = 0 then acct_a cfg else acct_b cfg)"
    and "cy_to c = (if turn mod 2 = 0 then address (acct_b cfg) else address (acct_a cfg))"
    and "\<exists>evs. build_and_send cfg (pass_node p) (cy_from c) (cy_to c) (cy_key c) ns =
                 (cy_result c, ns', evs) \<and>
           cy_events c =
             evs @ (case cy_result c of Inl e \<Rightarrow> [Print (RoutineException e)] | Inr h \<Rightarrow> []) @ [Print Waiting]"
  using assms
  by (auto simp: loop_body_def Let_def split: if_splits prod.splits)

lemma run_loop_Cons [consumes 1, case_names stop go]:
  assumes "run_loop cfg (p # rest) t ns = (cs, t', ns', x)"
  obtains (stop) c e ns1 where
      "loop_body cfg p t ns = (c, Inl e, ns1)" "cs = [c]" "t' = t" "ns' = ns1" "x = Some e"
    | (go) c t1 ns1 cs1 where
      "loop_body cfg p t ns = (c, Inr t1, ns1)" "run_loop cfg rest t1 ns1 = (cs1, t', ns', x)"
      "cs = c # cs1"
proof -
  obtain c tr ns1 where lb: "loop_body cfg p t ns = (c, tr, ns1)"
    by (cases "loop_body cfg p t ns")
  show thesis
  proof (cases tr)
    case (Inl e)
    with assms lb show thesis by (intro stop [of c e ns1]) simp_all
  next
    case (Inr t1)
    obtain cs1 t2 ns2 x2 where rl: "run_loop cfg rest t1 ns1 = (cs1, t2, ns2, x2)"
      by (cases "run_loop cfg rest t1 ns1")
    with assms lb Inr show thesis by (intro go [of c t1 ns1 cs1]) simp_all
  qed
qed

lemma loop_body_turn:
  "loop_body cfg p t ns = (c, Inr t1, ns1) \<Longrightarrow> t1 = t + 1 \<and> pass_sleep p = None"
  "loop_body cfg p t ns = (c, Inl e, ns1) \<Longrightarrow> pass_sleep p = Some e"
  by (auto dest!: loop_body_unfold(1) split: option.splits)

text \<open>How a run ends: after its last pass, or with the exception of a sleep.\<close>

lemma run_loop_end:
  "run_loop cfg ps t ns = (cs, t', ns', x) \<Longrightarrow>
     length cs \<le> length ps \<and>
     (\<forall>i. Suc i < length cs \<longrightarrow> pass_sleep (ps ! i) = None) \<and>
     (case x of
        None \<Rightarrow> length cs = length ps \<and> t' = t + int (length ps) \<and>
                (\<forall>i<length ps. pass_sleep (ps ! i) = None)
      | Some e \<Rightarrow> cs \<noteq> [] \<and> pass_sleep (ps ! (length cs - 1)) = Some e \<and>
                  t' = t + int (length cs) - 1)"
proof (induction ps arbitrary: t ns cs)
  case Nil
  then show ?case by simp
next
  case (Cons p rest)
  from Cons.prems show ?case
  proof (cases rule: run_loop_Cons)
    case (stop c e ns1)
    with loop_body_turn(2) [OF stop(1)] show ?thesis by simp
  next
    case (go c t1 ns1 cs1)
    from loop_body_turn(1) [OF go(1)] have t1: "t1 = t + 1" "pass_sleep p = None" by simp_all
    from Cons.IH [OF go(2)] have ih: "length cs1 \<le> length rest"
      "\<forall>i. Suc i < length cs1 \<longrightarrow> pass_sleep (rest ! i) = None"
      "case x of
        None \<Rightarrow> length cs1 = length rest \<and> t' = t1 + int (length rest) \<and>
                (\<forall>i<length rest. pass_sleep (rest ! i) = None)
      | Some e \<Rightarrow> cs1 \<noteq> [] \<and> pass_sleep (rest ! (length cs1 - 1)) = Some e \<and>
                  t' = t1 + int (length cs1) - 1"
      by simp_all
    have a: "length cs \<le> length (p # rest)" using go(3) ih(1) by simp
    have b: "pass_sleep ((p # rest) ! i) = None" if "Suc i < length cs" for i
    proof (cases i)
      case 0
      with t1 show ?thesis by simp
    next
      case (Suc k)
      with that go(3) ih(2) show ?thesis by simp
    qed
    have c: "case x of
        None \<Rightarrow> length cs = length (p # rest) \<and> t' = t + int (length (p # rest)) \<and>
                (\<forall>i<length (p # rest). pass_sleep ((p # rest) ! i) = None)
      | Some e \<Rightarrow> cs \<noteq> [] \<and> pass_sleep ((p # rest) ! (length cs - 1)) = Some e \<and>
                  t' = t + int (length cs) - 1"
    proof (cases x)
      case None
      with ih(3) have n: "length cs1 = length rest" "t' = t1 + int (length rest)"
        "\<forall>i<length rest. pass_sleep (rest ! i) = None" by simp_all
      have "pass_sleep ((p # rest) ! i) = None" if "i < length (p # rest)" for i
        using that t1 n(3) by (cases i) simp_all
      with None n go(3) t1 show ?thesis by simp
    next
      case (Some e)
      with ih(3) have s: "cs1 \<noteq> []" "pass_sleep (rest ! (length cs1 - 1)) = Some e"
        "t' = t1 + int (length cs1) - 1" by simp_all
      from s(1) obtain k where k: "length cs1 = Suc k" by (cases cs1) simp_all
      with Some s go(3) t1 show ?thesis by simp
    qed
    from a b c show ?thesis by blast
  qed
qed

text \<open>
  The \<open>i\<close>-th pass of a run: the passes before it ran without an exception, and it is
  \<open>loop_body\<close> at the turn \<open>t + i\<close> on the dictionary they left.
\<close>

lemma run_loop_pass:
  "run_loop cfg ps t ns = (cs, t', ns', x) \<Longrightarrow> i < length cs \<Longrightarrow>
     \<exists>nsi ti nsi'.
       run_loop cfg (take i ps) t ns = (take i cs, t + int i, nsi, None) \<and>
       loop_body cfg (ps ! i) (t + int i) nsi = (cs ! i, ti, nsi') \<and>
       nonces_of_run (run_loop cfg (take (Suc i) ps) t ns) = nsi'"
proof (induction ps arbitrary: t ns cs i)
  case Nil
  then show ?case by simp
next
  case (Cons p rest)
  from Cons.prems(1) show ?case
  proof (cases rule: run_loop_Cons)
    case (stop c e ns1)
    with Cons.prems(2) have "i = 0" by simp
    with stop show ?thesis by (simp add: nonces_of_run_def)
  next
    case (go c t1 ns1 cs1)
    from loop_body_turn(1) [OF go(1)] have t1: "t1 = t + 1" by simp
    show ?thesis
    proof (cases i)
      case 0
      with go show ?thesis by (simp add: nonces_of_run_def case_prod_beta)
    next
      case (Suc k)
      with Cons.prems(2) go(3) have "k < length cs1" by simp
      from Cons.IH [OF go(2) this] obtain nsi ti nsi' where
        ih: "run_loop cfg (take k rest) t1 ns1 = (take k cs1, t1 + int k, nsi, None)"
            "loop_body cfg (rest ! k) (t1 + int k) nsi = (cs1 ! k, ti, nsi')"
            "nonces_of_run (run_loop cfg (take (Suc k) rest) t1 ns1) = nsi'"
        by blast
      have "run_loop cfg (take i (p # rest)) t ns = (take i cs, t + int i, nsi, None)"
        using Suc go(1,3) ih(1) t1 by simp
      moreover have "loop_body cfg ((p # rest) ! i) (t + int i) nsi = (cs ! i, ti, nsi')"
        using Suc go(3) ih(2) t1 by (simp add: add.commute add.left_commute)
      moreover have "nonces_of_run (run_loop cfg (take (Suc i) (p # rest)) t ns) = nsi'"
        using Suc go(1) ih(3) by (simp add: nonces_of_run_def case_prod_beta)
      ultimately show ?thesis by blast
    qed
  qed
qed

lemma loop_body_nonces:
  assumes lb: "loop_body cfg p t ns = (c, t1, ns1)"
  shows "k \<noteq> cy_key c \<Longrightarrow> ns1 k = ns k"
    and "submitted (cy_events c) \<noteq> [] \<Longrightarrow>
           \<exists>n. ns (cy_key c) = Some n \<and> submitted (cy_events c) = [n] \<and>
               map tx_nonce (signed_txs (cy_events c)) = [Some n]"
    and "resets (cy_events c) = [] \<Longrightarrow> submitted (cy_events c) = [] \<Longrightarrow> ns1 = ns"
    and "resets (cy_events c) = [] \<Longrightarrow> submitted (cy_events c) \<noteq> [] \<Longrightarrow>
           \<exists>n. ns (cy_key c) = Some n \<and> ns1 = ns(cy_key c \<mapsto> n + 1)"
    and "signed_txs (cy_events c) \<noteq> [] \<Longrightarrow>
           \<exists>n. ns (cy_key c) = Some n \<and> map tx_nonce (signed_txs (cy_events c)) = [Some n]"
proof -
  from loop_body_unfold(6) [OF lb] obtain evs where
    bs: "build_and_send cfg (pass_node p) (cy_from c) (cy_to c) (cy_key c) ns =
           (cy_result c, ns1, evs)" and
    ce: "cy_events c =
           evs @ (case cy_result c of Inl e \<Rightarrow> [Print (RoutineException e)] | Inr h \<Rightarrow> []) @ [Print Waiting]"
    by auto
  have p: "submitted (cy_events c) = submitted evs" "resets (cy_events c) = resets evs"
    "signed_txs (cy_events c) = signed_txs evs"
    by (simp_all add: ce split: sum.splits)
  show "k \<noteq> cy_key c \<Longrightarrow> ns1 k = ns k" using build_and_send_other_keys [OF bs] by simp
  show "submitted (cy_events c) \<noteq> [] \<Longrightarrow>
           \<exists>n. ns (cy_key c) = Some n \<and> submitted (cy_events c) = [n] \<and>
               map tx_nonce (signed_txs (cy_events c)) = [Some n]"
    using build_and_send_nonces(1) [OF bs] by (simp add: p)
  show "resets (cy_events c) = [] \<Longrightarrow> submitted (cy_events c) = [] \<Longrightarrow> ns1 = ns"
    using build_and_send_nonces(2) [OF bs] by (simp add: p)
  show "resets (cy_events c) = [] \<Longrightarrow> submitted (cy_events c) \<noteq> [] \<Longrightarrow>
           \<exists>n. ns (cy_key c) = Some n \<and> ns1 = ns(cy_key c \<mapsto> n + 1)"
    using build_and_send_nonces(3) [OF bs] by (simp add: p)
  show "signed_txs (cy_events c) \<noteq> [] \<Longrightarrow>
           \<exists>n. ns (cy_key c) = Some n \<and> map tx_nonce (signed_txs (cy_events c)) = [Some n]"
    using build_and_send_built [OF bs] by (auto simp: p)
qed

lemma loop_body_mono:
  assumes lb: "loop_body cfg p t ns = (c, t1, ns1)" and v: "ns X = Some v"
    and nr: "cy_key c = X \<longrightarrow> resets (cy_events c) = []"
  shows "\<exists>v'. ns1 X = Some v' \<and> v \<le> v'"
proof (cases "cy_key c = X")
  case False
  then have "ns1 X = ns X" using loop_body_nonces(1) [OF lb] by simp
  with v show ?thesis by simp
next
  case True
  with nr have r: "resets (cy_events c) = []" by simp
  show ?thesis
  proof (cases "submitted (cy_events c) = []")
    case True
    from loop_body_nonces(3) [OF lb r True] v show ?thesis by simp
  next
    case False
    from loop_body_nonces(4) [OF lb r False] \<open>cy_key c = X\<close> v show ?thesis by auto
  qed
qed

lemma run_loop_forward:
  "run_loop cfg passes t ns = (cs, t', ns', x) \<Longrightarrow> ns X = Some v \<Longrightarrow> j < length cs \<Longrightarrow>
   cy_key (cs ! j) = X \<Longrightarrow> signed_txs (cy_events (cs ! j)) \<noteq> [] \<Longrightarrow>
   (\<forall>k<j. cy_key (cs ! k) = X \<longrightarrow> resets (cy_events (cs ! k)) = []) \<Longrightarrow>
   \<exists>m. map tx_nonce (signed_txs (cy_events (cs ! j))) = [Some m] \<and> v \<le> m"
proof (induction passes arbitrary: t ns cs j v)
  case Nil
  then show ?case by simp
next
  case (Cons p rest)
  have first: "\<exists>m. map tx_nonce (signed_txs (cy_events c)) = [Some m] \<and> v \<le> m"
    if "loop_body cfg p t ns = (c, tr, ns1)" "cy_key c = X" "signed_txs (cy_events c) \<noteq> []"
    for c tr ns1
    using loop_body_nonces(5) [OF that(1) that(3)] that(2) Cons.prems(2) by auto
  from Cons.prems(1) show ?case
  proof (cases rule: run_loop_Cons)
    case (stop c e ns1)
    with Cons.prems(3) have "j = 0" by simp
    with stop Cons.prems(4,5) first [OF stop(1)] show ?thesis by simp
  next
    case (go c t1 ns1 cs1)
    show ?thesis
    proof (cases j)
      case 0
      with go Cons.prems(4,5) first [OF go(1)] show ?thesis by simp
    next
      case (Suc j')
      from Cons.prems(6) Suc go(3) have "cy_key c = X \<longrightarrow> resets (cy_events c) = []" by auto
      from loop_body_mono [OF go(1) Cons.prems(2) this] obtain v' where
        v': "ns1 X = Some v'" "v \<le> v'" by auto
      have "\<exists>m. map tx_nonce (signed_txs (cy_events (cs1 ! j'))) = [Some m] \<and> v' \<le> m"
      proof (rule Cons.IH [OF go(2) v'(1)])
        show "j' < length cs1" using Cons.prems(3) Suc go(3) by simp
        show "cy_key (cs1 ! j') = X" using Cons.prems(4) Suc go(3) by simp
        show "signed_txs (cy_events (cs1 ! j')) \<noteq> []" using Cons.prems(5) Suc go(3) by simp
        show "\<forall>k<j'. cy_key (cs1 ! k) = X \<longrightarrow> resets (cy_events (cs1 ! k)) = []"
          using Cons.prems(6) Suc go(3) by auto
      qed
      with v'(2) Suc go(3) show ?thesis by auto
    qed
  qed
qed

subsection \<open>The model on the example nodes\<close>

lemma node_ok_sel:
  "to_wei node_ok = (\<lambda>amount unit. Inr 10000000000000000)"
  "chain_id node_ok = Inr 1"
  "estimate_gas node_ok = (\<lambda>tx. Inr 100000)"
  "get_block node_ok = (\<lambda>b. Inr [''baseFeePerGas'' \<mapsto> 100])"
  "max_priority_fee node_ok = Inr 10"
  "gas_price node_ok = Inr 50"
  "sign_transaction node_ok = (\<lambda>tx k. Inr ''signed'')"
  "send_raw_transaction node_ok = (\<lambda>raw. Inr ''0xh'')"
  "wait_for_transaction_receipt node_ok = (\<lambda>h t p. Inr \<lparr>blockNumber = 1, status = 1\<rparr>)"
  "get_transaction_count node_ok = (\<lambda>a b. Inr 40)"
  by (simp_all add: node_ok_def)

lemma cfg0_sel:
  "acct_a cfg0 = \<lparr>address = ''0xA'', key = ''ka''\<rparr>"
  "acct_b cfg0 = \<lparr>address = ''0xB'', key = ''kb''\<rparr>"
  "AMOUNT_ETH cfg0 = ''0.01''"
  "WAIT_FOR_CONFIRMATIONS cfg0 = 1"
  by (simp_all add: cfg0_def)

lemma gas_estimate_node_ok:
  "gas_estimate node_ok a tx = (110000, [Call (EstimateGas (AList.update ''from'' (PStr (address a)) tx))])"
proof -
  from floor_times_1_1 [of 100000] obtain f where
    "int_times_float 100000 float_1_1 = Inr f" and "math_floor f = Inr 110000"
    by (auto split: sum.splits)
  then show ?thesis by (simp add: gas_estimate_def node_ok_sel Let_def)
qed

lemma compute_fee_values_node_ok:
  "compute_fee_values node_ok =
     (Inr [(''maxPriorityFeePerGas'', PInt 10), (''maxFeePerGas'', PInt 260)],
      [Call (GetBlock ''latest''), Call MaxPriorityFee])"
proof -
  from int_times_2_5 [of 100] obtain f where
    "int_times_float 100 float_2_5 = Inr f" and "int_of_float f = Inr 250"
    by (auto split: sum.splits)
  then show ?thesis by (simp add: compute_fee_values_def node_ok_sel Let_def)
qed

lemma build_signed_node_ok:
  "build_signed cfg0 node_ok a t K ns =
     (case ns K of
        None \<Rightarrow> (Inl (key_error K), [])
      | Some n \<Rightarrow> (Inr (110000, example_tx t n, ''signed''), example_prefix a t n))"
  by (simp add: build_signed_def gas_estimate_node_ok compute_fee_values_node_ok dict_merge_def
      example_tx_def example_prefix_def node_ok_sel cfg0_sel Let_def split: option.splits)

lemma gas_estimate_other_fields [simp]:
  "gas_estimate (w3\<lparr>send_raw_transaction := s\<rparr>) = gas_estimate w3"
  "gas_estimate (w3\<lparr>wait_for_transaction_receipt := w\<rparr>) = gas_estimate w3"
  "gas_estimate (w3\<lparr>get_transaction_count := q\<rparr>) = gas_estimate w3"
  by (simp_all add: gas_estimate_def fun_eq_iff cong: sum.case_cong)

lemma compute_fee_values_other_fields [simp]:
  "compute_fee_values (w3\<lparr>send_raw_transaction := s\<rparr>) = compute_fee_values w3"
  "compute_fee_values (w3\<lparr>wait_for_transaction_receipt := w\<rparr>) = compute_fee_values w3"
  "compute_fee_values (w3\<lparr>get_transaction_count := q\<rparr>) = compute_fee_values w3"
  by (simp_all add: compute_fee_values_def cong: sum.case_cong option.case_cong)

lemma build_signed_other_fields [simp]:
  "build_signed cfg (w3\<lparr>send_raw_transaction := s\<rparr>) = build_signed cfg w3"
  "build_signed cfg (w3\<lparr>wait_for_transaction_receipt := w\<rparr>) = build_signed cfg w3"
  "build_signed cfg (w3\<lparr>get_transaction_count := q\<rparr>) = build_signed cfg w3"
  "build_signed (cfg\<lparr>WAIT_FOR_CONFIRMATIONS := c\<rparr>) w3 = build_signed cfg w3"
  by (simp_all add: build_signed_def fun_eq_iff cong: sum.case_cong option.case_cong)

lemma gas_estimate_get_block [simp]:
  "gas_estimate (w3\<lparr>get_block := b\<rparr>) = gas_estimate w3"
  by (simp add: gas_estimate_def fun_eq_iff cong: sum.case_cong)

lemmas example_eval = build_and_send_def build_signed_node_ok try_send_def on_send_error_def
  nonce_related_def lower_def lower_char_def sublist_code Let_def
  node_funds_def node_conflict_def node_conflict_down_def node_wait_timeout_def
  node_wait_error_def node_wait_error_down_def node_ok_sel cfg0_sel cfg_negative_def nonces0_def

lemma build_and_send_node_ok:
  "build_and_send cfg0 node_ok (acct_a cfg0) ''0xB'' ''A'' nonces0 =
     (Inr (Some ''0xh''), nonces0(''A'' \<mapsto> 8),
      example_prefix (acct_a cfg0) ''0xB'' 7 @
      [Call (SendRawTransaction ''signed''), Print (TxSubmitted ''0xh'' ''0xA'' ''0xB'' 7 110000),
       Call (WaitForTransactionReceipt ''0xh'' 120 2), Print (Confirmed 1 1)])"
  by (simp add: example_eval)

lemma build_and_send_node_funds:
  "build_and_send cfg0 node_funds (acct_a cfg0) ''0xB'' ''A'' nonces0 =
     (Inr None, nonces0,
      example_prefix (acct_a cfg0) ''0xB'' 7 @
      [Call (SendRawTransaction ''signed''),
       Print (SendError ''insufficient funds for gas * price + value'')])"
  by (simp add: example_eval)

lemma build_and_send_node_conflict:
  "build_and_send cfg0 node_conflict (acct_a cfg0) ''0xB'' ''A'' nonces0 =
     (Inr None, nonces0(''A'' \<mapsto> 40),
      example_prefix (acct_a cfg0) ''0xB'' 7 @
      [Call (SendRawTransaction ''signed''), Print (SendError ''nonce too low''),
       Call (GetTransactionCount ''0xA'' ''pending''), Print (NonceReset ''0xA'' 40)])"
  by (simp add: example_eval)

lemma build_and_send_node_wait_timeout:
  "build_and_send cfg0 node_wait_timeout (acct_a cfg0) ''0xB'' ''A'' nonces0 =
     (Inr (Some ''0xh''), nonces0(''A'' \<mapsto> 8),
      example_prefix (acct_a cfg0) ''0xB'' 7 @
      [Call (SendRawTransaction ''signed''), Print (TxSubmitted ''0xh'' ''0xA'' ''0xB'' 7 110000),
       Call (WaitForTransactionReceipt ''0xh'' 120 2), Print ReceiptTimeout])"
  by (simp add: example_eval)

lemma build_and_send_node_wait_error:
  "build_and_send cfg0 node_wait_error (acct_a cfg0) ''0xB'' ''A'' nonces0 =
     (Inr None, nonces0(''A'' \<mapsto> 40),
      example_prefix (acct_a cfg0) ''0xB'' 7 @
      [Call (SendRawTransaction ''signed''), Print (TxSubmitted ''0xh'' ''0xA'' ''0xB'' 7 110000),
       Call (WaitForTransactionReceipt ''0xh'' 120 2),
       Print (SendError ''bad response: nonce field missing''),
       Call (GetTransactionCount ''0xA'' ''pending''), Print (NonceReset ''0xA'' 40)])"
  by (simp add: example_eval)

lemma pass_sel [simp]:
  "pass_node (quiet w3) = w3" "pass_sleep (quiet w3) = None"
  "pass_node (sleep_fails w3) = w3"
  "pass_sleep (sleep_fails w3) = Some (Exn OtherException ''sleep length must be non-negative'')"
  by (simp_all add: quiet_def sleep_fails_def)

lemma build_and_send_node_no_block:
  "build_and_send cfg0 node_no_block (acct_a cfg0) ''0xB'' ''A'' nonces0 =
     (Inl (Exn OtherException ''read timed out''), nonces0,
      [Call ChainId,
       Call (EstimateGas [(''to'', PStr ''0xB''), (''value'', PInt 10000000000000000),
                          (''nonce'', PInt 7), (''chainId'', PInt 1), (''from'', PStr ''0xA'')]),
       Call (GetBlock ''latest'')])"
  by (simp add: build_and_send_def build_signed_def compute_fee_values_def
      node_no_block_def gas_estimate_node_ok node_ok_sel cfg0_sel nonces0_def Let_def)

lemma loop_body_node_no_block:
  "loop_body cfg0 \<lparr>pass_node = node_no_block, pass_sleep = s\<rparr> 0 nonces0 =
     (\<lparr>cy_turn = 0, cy_from = acct_a cfg0, cy_to = ''0xB'', cy_key = ''A'',
       cy_result = Inl (Exn OtherException ''read timed out''),
       cy_events =
         [Call ChainId,
          Call (EstimateGas [(''to'', PStr ''0xB''), (''value'', PInt 10000000000000000),
                             (''nonce'', PInt 7), (''chainId'', PInt 1), (''from'', PStr ''0xA'')]),
          Call (GetBlock ''latest''),
          Print (RoutineException (Exn OtherException ''read timed out'')), Print Waiting]\<rparr>,
      (case s of Some e \<Rightarrow> Inl e | None \<Rightarrow> Inr 1), nonces0)"
  by (simp add: loop_body_def build_and_send_node_no_block [simplified cfg0_sel] cfg0_sel
      split: option.splits)

lemma run_ok_funds_ok:
  "map cycle_summary (fst (main_loop cfg0 [quiet node_ok, quiet node_funds, quiet node_ok] nonces0)) =
     [(0, ''A'', [Some 7], [7], []), (1, ''B'', [Some 3], [], []), (2, ''A'', [Some 8], [8], [])]"
  by (simp add: main_loop_def loop_body_def cycle_summary_def example_eval example_prefix_def
      example_tx_def tx_nonce_def)

lemma run_no_block_ok_funds:
  "map (\<lambda>c. (cy_turn c, cy_from c, cy_to c, cy_key c, cy_result c))
      (fst (main_loop cfg0 [quiet node_no_block, quiet node_ok, quiet node_funds] nonces0)) =
     [(0, acct_a cfg0, ''0xB'', ''A'', Inl (Exn OtherException ''read timed out'')),
      (1, acct_b cfg0, ''0xA'', ''B'', Inr (Some ''0xh'')),
      (2, acct_a cfg0, ''0xB'', ''A'', Inr None)]"
  "snd (main_loop cfg0 [quiet node_no_block, quiet node_ok, quiet node_funds] nonces0) =
     (3, nonces0(''B'' \<mapsto> 4), None)"
  by (simp_all add: main_loop_def quiet_def loop_body_node_no_block)
    (simp_all add: loop_body_def example_eval)

lemma gas_estimate_max_priority_fee [simp]:
  "gas_estimate (w3\<lparr>max_priority_fee := q\<rparr>) = gas_estimate w3"
  by (simp add: gas_estimate_def fun_eq_iff cong: sum.case_cong)

lemma compute_fee_values_node_no_priority:
  "compute_fee_values node_no_priority =
     (Inr [(''maxPriorityFeePerGas'', PInt 2000000000), (''maxFeePerGas'', PInt 2000000250)],
      [Call (GetBlock ''latest''), Call MaxPriorityFee])"
proof -
  from int_times_2_5 [of 100] obtain f where
    "int_times_float 100 float_2_5 = Inr f" and "int_of_float f = Inr 250"
    by (auto split: sum.splits)
  then show ?thesis
    by (simp add: compute_fee_values_def node_no_priority_def node_ok_sel two_gwei_def Let_def)
qed

lemma build_and_send_node_no_priority:
  "build_and_send cfg0 node_no_priority (acct_a cfg0) ''0xB'' ''A'' nonces0 =
     (Inr (Some ''0xh''), nonces0(''A'' \<mapsto> 8),
      [Call ChainId,
       Call (EstimateGas [(''to'', PStr ''0xB''), (''value'', PInt 10000000000000000),
                          (''nonce'', PInt 7), (''chainId'', PInt 1), (''from'', PStr ''0xA'')]),
       Call (GetBlock ''latest''), Call MaxPriorityFee,
       Call (SignTransaction
               [(''to'', PStr ''0xB''), (''value'', PInt 10000000000000000), (''nonce'', PInt 7),
                (''chainId'', PInt 1), (''gas'', PInt 110000),
                (''maxPriorityFeePerGas'', PInt 2000000000), (''maxFeePerGas'', PInt 2000000250)]),
       Call (SendRawTransaction ''signed''), Print (TxSubmitted ''0xh'' ''0xA'' ''0xB'' 7 110000),
       Call (WaitForTransactionReceipt ''0xh'' 120 2), Print (Confirmed 1 1)])"
proof -
  have g: "gas_estimate node_no_priority a tx =
      (110000, [Call (EstimateGas (AList.update ''from'' (PStr (address a)) tx))])" for a tx
    by (simp add: node_no_priority_def gas_estimate_node_ok)
  have s: "to_wei node_no_priority = (\<lambda>amount unit. Inr 10000000000000000)"
    "chain_id node_no_priority = Inr 1"
    "sign_transaction node_no_priority = (\<lambda>tx k. Inr ''signed'')"
    "send_raw_transaction node_no_priority = (\<lambda>raw. Inr ''0xh'')"
    "wait_for_transaction_receipt node_no_priority = (\<lambda>h t p. Inr \<lparr>blockNumber = 1, status = 1\<rparr>)"
    by (simp_all add: node_no_priority_def node_ok_sel)
  show ?thesis
    by (simp add: build_and_send_def build_signed_def try_send_def g s
        compute_fee_values_node_no_priority dict_merge_def cfg0_sel nonces0_def Let_def)
qed

lemma run_prefixes:
  "nonces_of_run (main_loop cfg0 [] nonces0) = nonces0"
  "nonces_of_run (main_loop cfg0 [quiet node_no_block] nonces0) = nonces0"
  "nonces_of_run (main_loop cfg0 [quiet node_no_block, quiet node_ok] nonces0) = nonces0(''B'' \<mapsto> 4)"
  "nonces_of_run (main_loop cfg0 [quiet node_no_block, quiet node_ok, quiet node_funds] nonces0) =
     nonces0(''B'' \<mapsto> 4)"
  by (simp_all add: main_loop_def nonces_of_run_def quiet_def loop_body_node_no_block)
    (simp_all add: loop_body_def example_eval)

lemma run_no_block_ok_funds_to:
  "map (\<lambda>c. map (\<lambda>tx. map_of tx ''to'') (signed_txs (cy_events c)))
      (fst (main_loop cfg0 [quiet node_no_block, quiet node_ok, quiet node_funds] nonces0)) =
     [[], [Some (PStr ''0xA'')], [Some (PStr ''0xB'')]]"
  by (simp add: main_loop_def quiet_def loop_body_node_no_block)
    (simp add: loop_body_def example_eval example_prefix_def example_tx_def)

lemma build_signed_fee_failure:
  assumes "fst (compute_fee_values w3) = Inl e" and "build_signed cfg w3 a t K ns = (b, evs0)"
  shows "\<exists>e'. b = Inl e'" and "signed_txs evs0 = []"
    and "(\<exists>v. to_wei w3 (AMOUNT_ETH cfg) ''ether'' = Inr v) \<and> ns K \<noteq> None \<and>
         (\<exists>i. chain_id w3 = Inr i) \<longrightarrow> b = Inl e"
  using assms
  by (auto simp: build_signed_def Let_def case_prod_beta split: sum.splits option.splits)

section \<open>The claims\<close>

subsection \<open>Sequence numbers\<close>

text \<open>
  C1, as amended. In every run of the loop, take two passes for the same key (\<^verbatim>\<open>A\<close> or
  \<^verbatim>\<open>B\<close>, the label under which the sender's sequence number is stored) such that the
  node accepted the broadcast of the earlier pass, the later pass built a transaction,
  and no resync stored a value for that key in any pass from the earlier one up to the
  one before the later. Then the later transaction carries a strictly greater sequence
  number than the earlier one.
\<close>

theorem accepted_nonce_not_reused:
  assumes "main_loop cfg passes nonces = (cs, turn, nonces', stopped)"
    and "i < j" and "j < length cs"
    and "cy_key (cs ! i) = cy_key (cs ! j)"
    and "submitted (cy_events (cs ! i)) \<noteq> []" and "signed_txs (cy_events (cs ! j)) \<noteq> []"
    and "\<forall>k. i \<le> k \<and> k < j \<and> cy_key (cs ! k) = cy_key (cs ! i) \<longrightarrow> resets (cy_events (cs ! k)) = []"
  shows "\<exists>n m. submitted (cy_events (cs ! i)) = [n] \<and>
           map tx_nonce (signed_txs (cy_events (cs ! i))) = [Some n] \<and>
           map tx_nonce (signed_txs (cy_events (cs ! j))) = [Some m] \<and> n < m"
proof -
  txt \<open>The loop may start at any turn and with any dictionary: induction on the passes.\<close>
  have pair: "\<exists>n m. submitted (cy_events (cs ! i)) = [n] \<and>
           map tx_nonce (signed_txs (cy_events (cs ! i))) = [Some n] \<and>
           map tx_nonce (signed_txs (cy_events (cs ! j))) = [Some m] \<and> n < m"
    if "run_loop cfg ps t ns = (cs, t', ns', x)" "i < j" "j < length cs"
      "cy_key (cs ! i) = cy_key (cs ! j)"
      "submitted (cy_events (cs ! i)) \<noteq> []" "signed_txs (cy_events (cs ! j)) \<noteq> []"
      "\<forall>k. i \<le> k \<and> k < j \<and> cy_key (cs ! k) = cy_key (cs ! i) \<longrightarrow> resets (cy_events (cs ! k)) = []"
    for ps t ns cs t' ns' x i j
    using that
  proof (induction ps arbitrary: t ns cs i j)
    case Nil
    then show ?case by simp
  next
    case (Cons p rest)
    from Cons.prems(2) obtain j' where j: "j = Suc j'" by (cases j) simp_all
    from Cons.prems(1) show ?case
    proof (cases rule: run_loop_Cons)
      case (stop c e ns1)
      txt \<open>The sleep of the first pass raised: there is no later pass.\<close>
      with Cons.prems(3) j show ?thesis by simp
    next
      case (go c t1 ns1 cs1)
      note lb = go(1) and rl = go(2) and eq = go(3)
      show ?thesis
      proof (cases i)
        case 0
        let ?X = "cy_key c"
        from Cons.prems(5) 0 eq have sub: "submitted (cy_events c) \<noteq> []" by simp
        from Cons.prems(7) [rule_format, of 0] 0 eq j have r: "resets (cy_events c) = []" by simp
        from loop_body_nonces(2) [OF lb sub] obtain n where
          n: "ns ?X = Some n" "submitted (cy_events c) = [n]"
             "map tx_nonce (signed_txs (cy_events c)) = [Some n]" by auto
        from loop_body_nonces(4) [OF lb r sub] n(1) have ns1: "ns1 ?X = Some (n + 1)" by auto
        have "\<exists>m. map tx_nonce (signed_txs (cy_events (cs1 ! j'))) = [Some m] \<and> n + 1 \<le> m"
        proof (rule run_loop_forward [OF rl ns1])
          show "j' < length cs1" using Cons.prems(3) j eq by simp
          show "cy_key (cs1 ! j') = ?X" using Cons.prems(4) 0 j eq by simp
          show "signed_txs (cy_events (cs1 ! j')) \<noteq> []" using Cons.prems(6) j eq by simp
          show "\<forall>k<j'. cy_key (cs1 ! k) = ?X \<longrightarrow> resets (cy_events (cs1 ! k)) = []"
          proof (intro allI impI)
            fix k assume "k < j'" and "cy_key (cs1 ! k) = ?X"
            with Cons.prems(7) [rule_format, of "Suc k"] 0 j eq
            show "resets (cy_events (cs1 ! k)) = []" by simp
          qed
        qed
        with n 0 j eq show ?thesis by auto
      next
        case (Suc i')
        have "\<exists>n m. submitted (cy_events (cs1 ! i')) = [n] \<and>
             map tx_nonce (signed_txs (cy_events (cs1 ! i'))) = [Some n] \<and>
             map tx_nonce (signed_txs (cy_events (cs1 ! j'))) = [Some m] \<and> n < m"
        proof (rule Cons.IH [OF rl])
          show "i' < j'" using Cons.prems(2) Suc j by simp
          show "j' < length cs1" using Cons.prems(3) j eq by simp
          show "cy_key (cs1 ! i') = cy_key (cs1 ! j')" using Cons.prems(4) Suc j eq by simp
          show "submitted (cy_events (cs1 ! i')) \<noteq> []" using Cons.prems(5) Suc eq by simp
          show "signed_txs (cy_events (cs1 ! j')) \<noteq> []" using Cons.prems(6) j eq by simp
          show "\<forall>k. i' \<le> k \<and> k < j' \<and> cy_key (cs1 ! k) = cy_key (cs1 ! i') \<longrightarrow>
                  resets (cy_events (cs1 ! k)) = []"
          proof (intro allI impI)
            fix k assume "i' \<le> k \<and> k < j' \<and> cy_key (cs1 ! k) = cy_key (cs1 ! i')"
            with Cons.prems(7) [rule_format, of "Suc k"] Suc j eq
            show "resets (cy_events (cs1 ! k)) = []" by simp
          qed
        qed
        with Suc j eq show ?thesis by simp
      qed
    qed
  qed
  from assms show ?thesis unfolding main_loop_def by (rule pair)
qed

text \<open>The theorem on three passes: accepted for A, rejected for B, accepted for A.\<close>

theorem accepted_nonce_not_reused_witness:
  "map cycle_summary (fst (main_loop cfg0 [quiet node_ok, quiet node_funds, quiet node_ok] nonces0)) =
     [(0, ''A'', [Some 7], [7], []), (1, ''B'', [Some 3], [], []), (2, ''A'', [Some 8], [8], [])] \<and>
   (\<exists>n m. submitted (cy_events (fst (main_loop cfg0 [quiet node_ok, quiet node_funds, quiet node_ok] nonces0) ! 0)) = [n] \<and>
          map tx_nonce (signed_txs (cy_events (fst (main_loop cfg0 [quiet node_ok, quiet node_funds, quiet node_ok] nonces0) ! 0))) = [Some n] \<and>
          map tx_nonce (signed_txs (cy_events (fst (main_loop cfg0 [quiet node_ok, quiet node_funds, quiet node_ok] nonces0) ! 2))) = [Some m] \<and>
          n < m)"
proof -
  let ?run = "main_loop cfg0 [quiet node_ok, quiet node_funds, quiet node_ok] nonces0"
  define cs where "cs = fst ?run"
  have sm: "map cycle_summary cs =
     [(0, ''A'', [Some 7], [7], []), (1, ''B'', [Some 3], [], []), (2, ''A'', [Some 8], [8], [])]"
    unfolding cs_def by (rule run_ok_funds_ok)
  then have "length (map cycle_summary cs) = 3" by simp
  then have len: "length cs = 3" by simp
  have at: "cycle_summary (cs ! k) = map cycle_summary cs ! k" if "k < 3" for k
    using that len by simp
  have s0: "cycle_summary (cs ! 0) = (0, ''A'', [Some 7], [7], [])"
    and s1: "cycle_summary (cs ! 1) = (1, ''B'', [Some 3], [], [])"
    and s2: "cycle_summary (cs ! 2) = (2, ''A'', [Some 8], [8], [])"
    by (simp_all add: at sm)
  have run: "?run = (cs, fst (snd ?run), fst (snd (snd ?run)), snd (snd (snd ?run)))"
    by (simp add: cs_def)
  have no_reset: "\<forall>k. 0 \<le> k \<and> k < 2 \<and> cy_key (cs ! k) = cy_key (cs ! 0) \<longrightarrow>
      resets (cy_events (cs ! k)) = []"
  proof (intro allI impI)
    fix k :: nat
    assume "0 \<le> k \<and> k < 2 \<and> cy_key (cs ! k) = cy_key (cs ! 0)"
    then have "k = 0 \<or> k = 1" by auto
    then show "resets (cy_events (cs ! k)) = []"
      using s0 s1 by (auto simp: cycle_summary_def)
  qed
  have "\<exists>n m. submitted (cy_events (cs ! 0)) = [n] \<and>
           map tx_nonce (signed_txs (cy_events (cs ! 0))) = [Some n] \<and>
           map tx_nonce (signed_txs (cy_events (cs ! 2))) = [Some m] \<and> n < m"
  proof (rule accepted_nonce_not_reused [OF run _ _ _ _ _ no_reset])
    show "(0::nat) < 2" by simp
    show "2 < length cs" by (simp add: len)
    show "cy_key (cs ! 0) = cy_key (cs ! 2)" using s0 s2 by (simp add: cycle_summary_def)
    show "submitted (cy_events (cs ! 0)) \<noteq> []" using s0 by (simp add: cycle_summary_def)
    show "signed_txs (cy_events (cs ! 2)) \<noteq> []" using s2 by (auto simp: cycle_summary_def)
  qed
  with sm show ?thesis by (simp only: cs_def)
qed

text \<open>
  C1 as stated fails: both passes for A sign a transaction with sequence number 7, the
  node rejects both for a reason other than the sequence number, and no resync happens
  in between. Each entry below gives the turn, the key, the numbers signed, the numbers
  accepted and the values stored by a resync.
\<close>

theorem rebuilt_transaction_same_nonce:
  "map cycle_summary
      (fst (main_loop cfg0 [quiet node_funds, quiet node_ok, quiet node_funds] nonces0)) =
     [(0, ''A'', [Some 7], [], []), (1, ''B'', [Some 3], [3], []), (2, ''A'', [Some 7], [], [])]"
  by (simp add: main_loop_def loop_body_def cycle_summary_def example_eval example_prefix_def
      example_tx_def tx_nonce_def)



text \<open>
  C9. A call of \<^verbatim>\<open>build_and_send\<close> with the key \<open>nonce_key\<close> leaves the entry of every other
  key as it was, whichever way the call ends.
\<close>

theorem other_counter_unchanged:
  assumes bs: "build_and_send cfg w3 from_acct to_addr nonce_key nonces = (r, nonces', evs)"
    and k: "k \<noteq> nonce_key"
  shows "nonces' k = nonces k"
proof (cases "build_signed cfg w3 from_acct to_addr nonce_key nonces")
  case (Pair b evs0)
  show ?thesis
  proof (cases b)
    case (Inl e)
    txt \<open>An exception left the function before the broadcast: nothing was stored.\<close>
    with Pair bs show ?thesis by (simp add: build_and_send_def)
  next
    case (Inr built)
    obtain g tx raw where built: "built = (g, tx, raw)" by (cases built)
    obtain rs ns1 evs1 where
      ts: "try_send cfg w3 from_acct to_addr nonce_key g raw nonces = (rs, ns1, evs1)"
      by (cases "try_send cfg w3 from_acct to_addr nonce_key g raw nonces")
    txt \<open>The \<^verbatim>\<open>try\<close> block stores at \<open>nonce_key\<close> only (line 104).\<close>
    from try_send_frame [OF ts k] have first: "ns1 k = nonces k" .
    show ?thesis
    proof (cases rs)
      case (Inr h)
      with Pair \<open>b = Inr built\<close> built ts bs have "nonces' = ns1"
        by (simp add: build_and_send_def)
      with first show ?thesis by simp
    next
      case (Inl e)
      txt \<open>So does the handler (line 123).\<close>
      obtain ns2 evs2 where oe: "on_send_error w3 from_acct nonce_key e ns1 = (ns2, evs2)"
        by (cases "on_send_error w3 from_acct nonce_key e ns1")
      with Pair \<open>b = Inr built\<close> built ts Inl bs have "nonces' = ns2"
        by (simp add: build_and_send_def)
      with on_send_error_frame [OF oe k] first show ?thesis by simp
    qed
  qed
qed

text \<open>The theorem on a call that resyncs the counter of A: the counter of B stays 3.\<close>

theorem other_counter_unchanged_witness:
  "nonces_after (build_and_send cfg0 node_conflict (acct_a cfg0) ''0xB'' ''A'' nonces0) ''A'' = Some 40 \<and>
   ''B'' \<noteq> ''A'' \<and>
   nonces_after (build_and_send cfg0 node_conflict (acct_a cfg0) ''0xB'' ''A'' nonces0) ''B'' = Some 3"
  using other_counter_unchanged [OF build_and_send_node_conflict, of "''B''"]
  apply (simp only: build_and_send_node_conflict nonces_after_def fst_conv snd_conv)
  apply (simp add: nonces0_def)
  done

subsection \<open>Failures of the broadcast and of the wait\<close>

text \<open>
  C2, as amended. When the broadcast fails with an error whose lower-cased text contains
  \<^verbatim>\<open>nonce\<close> (so in particular \<^verbatim>\<open>nonce too low\<close>), \<^verbatim>\<open>replacement transaction underpriced\<close> or
  \<^verbatim>\<open>already known\<close>, the call makes exactly one query for the sender's count with the block
  identifier \<^verbatim>\<open>pending\<close>; if the query answers, the answer overwrites the sender's stored
  value, and if the query fails, the stored value stays as it was. For any other text
  no query is made and the dictionary is unchanged. In both cases the call returns
  \<^verbatim>\<open>None\<close>; the lines printed last tell the two apart.
\<close>

theorem broadcast_failure_handling:
  "build_and_send cfg w3 from_acct to_addr nonce_key nonces = (r, nonces', evs) \<Longrightarrow>
   broadcasts evs = [raw] \<Longrightarrow> send_raw_transaction w3 raw = Inl e \<Longrightarrow>
     r = Inr None \<and> submitted evs = [] \<and>
     (if nonce_related (str e)
      then count_queries evs = [(address from_acct, ''pending'')] \<and>
           (case get_transaction_count w3 (address from_acct) ''pending'' of
              Inr current \<Rightarrow>
                nonces' = nonces(nonce_key \<mapsto> current) \<and>
                suffix [SendError (str e), NonceReset (address from_acct) current] (printed evs)
            | Inl x \<Rightarrow>
                nonces' = nonces \<and>
                suffix [SendError (str e), NonceRefetchFailed x] (printed evs))
      else count_queries evs = [] \<and> nonces' = nonces \<and>
           suffix [SendError (str e)] (printed evs)) \<and>
     (sublist ''nonce too low'' (lower (str e)) \<or>
      sublist ''replacement transaction underpriced'' (lower (str e)) \<or>
      sublist ''already known'' (lower (str e)) \<longrightarrow> nonce_related (str e))"
proof -
  assume bs: "build_and_send cfg w3 from_acct to_addr nonce_key nonces = (r, nonces', evs)"
    and br: "broadcasts evs = [raw]" and send: "send_raw_transaction w3 raw = Inl e"
  from bs br obtain g tx n evs0 rs ns1 evs1 evs2 where
    b: "build_signed cfg w3 from_acct to_addr nonce_key nonces = (Inr (g, tx, raw), evs0)" and
    n: "nonces nonce_key = Some n" and
    ts: "try_send cfg w3 from_acct to_addr nonce_key g raw nonces = (rs, ns1, evs1)" and
    evs: "evs = evs0 @ evs1 @ evs2" and
    fin: "case rs of Inr h \<Rightarrow> r = Inr (Some h) \<and> nonces' = ns1 \<and> evs2 = []
              | Inl e \<Rightarrow> r = Inr None \<and> on_send_error w3 from_acct nonce_key e ns1 = (nonces', evs2)"
    by (rule build_and_send_broadcast)
  note p0 = build_signed_prefix [OF b]
  from try_send_shape(5) [OF ts n send] have
    t1: "rs = Inl e" "ns1 = nonces" "submitted evs1 = []" "printed evs1 = []" by simp_all
  from try_send_shape(2) [OF ts n] have q1: "count_queries evs1 = []" .
  from fin t1 have r: "r = Inr None" and
    oe: "on_send_error w3 from_acct nonce_key e nonces = (nonces', evs2)" by simp_all
  note sh = on_send_error_shape [OF oe]
  have q: "count_queries evs = count_queries evs2" using evs p0 q1 by simp
  have pr: "printed evs = printed evs0 @ printed evs2" using evs t1 by simp
  have sb: "submitted evs = []" using evs p0 t1 sh(2) by simp
  have "if nonce_related (str e)
      then count_queries evs = [(address from_acct, ''pending'')] \<and>
           (case get_transaction_count w3 (address from_acct) ''pending'' of
              Inr current \<Rightarrow>
                nonces' = nonces(nonce_key \<mapsto> current) \<and>
                suffix [SendError (str e), NonceReset (address from_acct) current] (printed evs)
            | Inl x \<Rightarrow>
                nonces' = nonces \<and>
                suffix [SendError (str e), NonceRefetchFailed x] (printed evs))
      else count_queries evs = [] \<and> nonces' = nonces \<and>
           suffix [SendError (str e)] (printed evs)"
  proof (cases "nonce_related (str e)")
    case True
    from sh(6) [OF True] show ?thesis
      using True q pr by (auto split: sum.splits simp: suffix_def)
  next
    case False
    from sh(5) [OF False] show ?thesis
      using False q pr by (auto simp: suffix_def)
  qed
  moreover have "sublist ''nonce too low'' (lower (str e)) \<or>
      sublist ''replacement transaction underpriced'' (lower (str e)) \<or>
      sublist ''already known'' (lower (str e)) \<longrightarrow> nonce_related (str e)"
    by (auto simp: nonce_related_def dest: nonce_too_low_related)
  ultimately show ?thesis using r sb by simp
qed

text \<open>
  The theorem on a broadcast rejected with \<^verbatim>\<open>nonce too low\<close>, where the query answers 40,
  and on one rejected for insufficient funds.
\<close>

theorem broadcast_failure_handling_witness:
  "send_raw_transaction node_conflict ''signed'' = Inl (Exn OtherException ''nonce too low'') \<and>
   nonce_related ''nonce too low'' \<and>
   result_of (build_and_send cfg0 node_conflict (acct_a cfg0) ''0xB'' ''A'' nonces0) = Inr None \<and>
   nonces_after (build_and_send cfg0 node_conflict (acct_a cfg0) ''0xB'' ''A'' nonces0) =
     nonces0(''A'' \<mapsto> 40) \<and>
   count_queries (events_of (build_and_send cfg0 node_conflict (acct_a cfg0) ''0xB'' ''A'' nonces0)) =
     [(''0xA'', ''pending'')] \<and>
   send_raw_transaction node_funds ''signed'' =
     Inl (Exn OtherException ''insufficient funds for gas * price + value'') \<and>
   \<not> nonce_related ''insufficient funds for gas * price + value'' \<and>
   result_of (build_and_send cfg0 node_funds (acct_a cfg0) ''0xB'' ''A'' nonces0) = Inr None \<and>
   nonces_after (build_and_send cfg0 node_funds (acct_a cfg0) ''0xB'' ''A'' nonces0) = nonces0 \<and>
   count_queries (events_of (build_and_send cfg0 node_funds (acct_a cfg0) ''0xB'' ''A'' nonces0)) = []"
  using broadcast_failure_handling [OF build_and_send_node_conflict, of "''signed''"
      "Exn OtherException ''nonce too low''"]
    broadcast_failure_handling [OF build_and_send_node_funds, of "''signed''"
      "Exn OtherException ''insufficient funds for gas * price + value''"]
  apply (simp only: build_and_send_node_conflict build_and_send_node_funds result_of_def
      nonces_after_def events_of_def fst_conv snd_conv)
  apply (simp add: example_prefix_def node_conflict_def node_funds_def
      node_ok_sel cfg0_sel nonce_related_def lower_def lower_char_def sublist_code)
  done

text \<open>
  C2 as stated fails: the broadcast is rejected with \<^verbatim>\<open>nonce too low\<close>, the query that
  follows fails, and the stored value of A is still 7.
\<close>

theorem failed_resync_keeps_nonce:
  "nonce_related ''nonce too low'' \<and>
   build_and_send cfg0 node_conflict_down (acct_a cfg0) ''0xB'' ''A'' nonces0 =
     (Inr None, nonces0,
      example_prefix (acct_a cfg0) ''0xB'' 7 @
      [Call (SendRawTransaction ''signed''), Print (SendError ''nonce too low''),
       Call (GetTransactionCount ''0xA'' ''pending''),
       Print (NonceRefetchFailed (Exn OtherException ''connection refused''))]) \<and>
   nonces0 ''A'' = Some 7"
  by (simp add: example_eval)

text \<open>
  C7, as amended. After an accepted broadcast, the receipt is waited for exactly when
  \<^verbatim>\<open>WAIT_FOR_CONFIRMATIONS\<close> is greater than zero, with timeout 120 and poll interval 2;
  when the wait times out, the call still returns the transaction hash and the sender's
  stored value stays advanced by one.
\<close>

theorem receipt_wait_policy:
  "build_and_send cfg w3 from_acct to_addr nonce_key nonces = (r, nonces', evs) \<Longrightarrow>
   broadcasts evs = [raw] \<Longrightarrow> send_raw_transaction w3 raw = Inr h \<Longrightarrow>
     receipt_waits evs = (if 0 < WAIT_FOR_CONFIRMATIONS cfg then [(h, 120, 2)] else []) \<and>
     (\<forall>e. 0 < WAIT_FOR_CONFIRMATIONS cfg \<and> wait_for_transaction_receipt w3 h 120 2 = Inl e \<and>
          class_of e = TimeExhausted \<longrightarrow>
          r = Inr (Some h) \<and>
          (\<exists>n. nonces nonce_key = Some n \<and> nonces' = nonces(nonce_key \<mapsto> n + 1)))"
proof -
  assume bs: "build_and_send cfg w3 from_acct to_addr nonce_key nonces = (r, nonces', evs)"
    and br: "broadcasts evs = [raw]" and send: "send_raw_transaction w3 raw = Inr h"
  from bs br obtain g tx n evs0 rs ns1 evs1 evs2 where
    b: "build_signed cfg w3 from_acct to_addr nonce_key nonces = (Inr (g, tx, raw), evs0)" and
    n: "nonces nonce_key = Some n" and
    ts: "try_send cfg w3 from_acct to_addr nonce_key g raw nonces = (rs, ns1, evs1)" and
    evs: "evs = evs0 @ evs1 @ evs2" and
    fin: "case rs of Inr h \<Rightarrow> r = Inr (Some h) \<and> nonces' = ns1 \<and> evs2 = []
              | Inl e \<Rightarrow> r = Inr None \<and> on_send_error w3 from_acct nonce_key e ns1 = (nonces', evs2)"
    by (rule build_and_send_broadcast)
  note p0 = build_signed_prefix [OF b]
  from try_send_shape(6) [OF ts n send] have
    t1: "ns1 = nonces(nonce_key \<mapsto> n + 1)"
        "receipt_waits evs1 = (if WAIT_FOR_CONFIRMATIONS cfg > 0 then [(h, 120, 2)] else [])"
        "rs = (if WAIT_FOR_CONFIRMATIONS cfg > 0 then
                   (case wait_for_transaction_receipt w3 h 120 2 of
                      Inr rc \<Rightarrow> Inr h
                    | Inl x \<Rightarrow> if class_of x = TimeExhausted then Inr h else Inl x)
                 else Inr h)" by simp_all
  have "receipt_waits evs2 = []"
    using fin by (cases rs) (auto dest: on_send_error_shape(4))
  then have w: "receipt_waits evs = (if 0 < WAIT_FOR_CONFIRMATIONS cfg then [(h, 120, 2)] else [])"
    using evs p0 t1(2) by simp
  have "r = Inr (Some h) \<and> (\<exists>n. nonces nonce_key = Some n \<and> nonces' = nonces(nonce_key \<mapsto> n + 1))"
    if "0 < WAIT_FOR_CONFIRMATIONS cfg \<and> wait_for_transaction_receipt w3 h 120 2 = Inl e \<and>
          class_of e = TimeExhausted" for e
  proof -
    from that t1(3) have "rs = Inr h" by simp
    with fin t1(1) n show ?thesis by simp
  qed
  with w show ?thesis by blast
qed

text \<open>The theorem on a node whose receipt never arrives.\<close>

theorem receipt_wait_policy_witness:
  "send_raw_transaction node_wait_timeout ''signed'' = Inr ''0xh'' \<and>
   0 < WAIT_FOR_CONFIRMATIONS cfg0 \<and>
   wait_for_transaction_receipt node_wait_timeout ''0xh'' 120 2 =
     Inl (Exn TimeExhausted ''not in the chain after 120 seconds'') \<and>
   receipt_waits (events_of (build_and_send cfg0 node_wait_timeout (acct_a cfg0) ''0xB'' ''A'' nonces0)) =
     [(''0xh'', 120, 2)] \<and>
   result_of (build_and_send cfg0 node_wait_timeout (acct_a cfg0) ''0xB'' ''A'' nonces0) =
     Inr (Some ''0xh'') \<and>
   nonces_after (build_and_send cfg0 node_wait_timeout (acct_a cfg0) ''0xB'' ''A'' nonces0) ''A'' =
     Some 8"
  using receipt_wait_policy [OF build_and_send_node_wait_timeout, of "''signed''" "''0xh''"]
  apply (simp only: build_and_send_node_wait_timeout result_of_def nonces_after_def events_of_def
      fst_conv snd_conv)
  apply (simp add: example_prefix_def node_wait_timeout_def node_ok_sel cfg0_sel nonces0_def)
  done

text \<open>
  C7 as stated fails: with \<^verbatim>\<open>WAIT_FOR_CONFIRMATIONS = -1\<close>, a count that is not zero, the
  broadcast is accepted and no receipt is waited for.
\<close>

theorem negative_wait_count_skips_receipt:
  "WAIT_FOR_CONFIRMATIONS cfg_negative \<noteq> 0 \<and>
   build_and_send cfg_negative node_ok (acct_a cfg_negative) ''0xB'' ''A'' nonces0 =
     (Inr (Some ''0xh''), nonces0(''A'' \<mapsto> 8),
      example_prefix (acct_a cfg0) ''0xB'' 7 @
      [Call (SendRawTransaction ''signed''), Print (TxSubmitted ''0xh'' ''0xA'' ''0xB'' 7 110000)])"
  by (simp add: example_eval)

text \<open>
  C10, as amended. When the broadcast is accepted and the wait for the receipt then
  raises something other than the timeout, \<^verbatim>\<open>build_and_send\<close> returns \<^verbatim>\<open>None\<close> although the
  line of line 102 was printed and the counter advanced. If the lower-cased text of that
  error is in the family of line 118 (so in particular if the text contains \<^verbatim>\<open>nonce\<close>),
  the sender's count is queried: if the query answers, the answer overwrites the counter
  just advanced; if the query fails, the advanced counter stays.
\<close>

theorem receipt_wait_error_handling:
  "build_and_send cfg w3 from_acct to_addr nonce_key nonces = (r, nonces', evs) \<Longrightarrow>
   broadcasts evs = [raw] \<Longrightarrow> send_raw_transaction w3 raw = Inr h \<Longrightarrow>
   0 < WAIT_FOR_CONFIRMATIONS cfg \<Longrightarrow> wait_for_transaction_receipt w3 h 120 2 = Inl e \<Longrightarrow>
   class_of e \<noteq> TimeExhausted \<Longrightarrow>
     r = Inr None \<and>
     (\<exists>n. nonces nonce_key = Some n \<and> submitted evs = [n] \<and>
          (if nonce_related (str e)
           then (case get_transaction_count w3 (address from_acct) ''pending'' of
                   Inr current \<Rightarrow> nonces' = nonces(nonce_key \<mapsto> current)
                 | Inl x \<Rightarrow> nonces' = nonces(nonce_key \<mapsto> n + 1))
           else nonces' = nonces(nonce_key \<mapsto> n + 1))) \<and>
     (sublist ''nonce'' (str e) \<longrightarrow> nonce_related (str e))"
proof -
  assume bs: "build_and_send cfg w3 from_acct to_addr nonce_key nonces = (r, nonces', evs)"
    and br: "broadcasts evs = [raw]" and send: "send_raw_transaction w3 raw = Inr h"
    and wait: "0 < WAIT_FOR_CONFIRMATIONS cfg" "wait_for_transaction_receipt w3 h 120 2 = Inl e"
      "class_of e \<noteq> TimeExhausted"
  from bs br obtain g tx n evs0 rs ns1 evs1 evs2 where
    b: "build_signed cfg w3 from_acct to_addr nonce_key nonces = (Inr (g, tx, raw), evs0)" and
    n: "nonces nonce_key = Some n" and
    ts: "try_send cfg w3 from_acct to_addr nonce_key g raw nonces = (rs, ns1, evs1)" and
    evs: "evs = evs0 @ evs1 @ evs2" and
    fin: "case rs of Inr h \<Rightarrow> r = Inr (Some h) \<and> nonces' = ns1 \<and> evs2 = []
              | Inl e \<Rightarrow> r = Inr None \<and> on_send_error w3 from_acct nonce_key e ns1 = (nonces', evs2)"
    by (rule build_and_send_broadcast)
  note p0 = build_signed_prefix [OF b]
  from try_send_shape(6) [OF ts n send] wait have
    t1: "ns1 = nonces(nonce_key \<mapsto> n + 1)" "submitted evs1 = [n]" "rs = Inl e" by simp_all
  from fin t1 have r: "r = Inr None" and
    oe: "on_send_error w3 from_acct nonce_key e (nonces(nonce_key \<mapsto> n + 1)) = (nonces', evs2)"
    by simp_all
  note sh = on_send_error_shape [OF oe]
  have sb: "submitted evs = [n]" using evs p0 t1 sh(2) by simp
  have "if nonce_related (str e)
           then (case get_transaction_count w3 (address from_acct) ''pending'' of
                   Inr current \<Rightarrow> nonces' = nonces(nonce_key \<mapsto> current)
                 | Inl x \<Rightarrow> nonces' = nonces(nonce_key \<mapsto> n + 1))
           else nonces' = nonces(nonce_key \<mapsto> n + 1)"
  proof (cases "nonce_related (str e)")
    case True
    from sh(6) [OF True] True show ?thesis by (auto split: sum.splits)
  next
    case False
    from sh(5) [OF False] False show ?thesis by simp
  qed
  moreover have "sublist ''nonce'' (str e) \<longrightarrow> nonce_related (str e)"
    by (auto simp: nonce_related_def dest: lower_sublist)
  ultimately show ?thesis using r n sb by simp
qed

text \<open>The theorem on a node whose wait fails with a text containing \<^verbatim>\<open>nonce\<close>; the query answers 40.\<close>

theorem receipt_wait_error_handling_witness:
  "send_raw_transaction node_wait_error ''signed'' = Inr ''0xh'' \<and>
   0 < WAIT_FOR_CONFIRMATIONS cfg0 \<and>
   wait_for_transaction_receipt node_wait_error ''0xh'' 120 2 =
     Inl (Exn OtherException ''bad response: nonce field missing'') \<and>
   sublist ''nonce'' ''bad response: nonce field missing'' \<and>
   result_of (build_and_send cfg0 node_wait_error (acct_a cfg0) ''0xB'' ''A'' nonces0) = Inr None \<and>
   submitted (events_of (build_and_send cfg0 node_wait_error (acct_a cfg0) ''0xB'' ''A'' nonces0)) = [7] \<and>
   nonces_after (build_and_send cfg0 node_wait_error (acct_a cfg0) ''0xB'' ''A'' nonces0) =
     nonces0(''A'' \<mapsto> 40)"
  using receipt_wait_error_handling [OF build_and_send_node_wait_error, of "''signed''" "''0xh''"
      "Exn OtherException ''bad response: nonce field missing''"]
  apply (simp only: build_and_send_node_wait_error result_of_def nonces_after_def events_of_def
      fst_conv snd_conv)
  apply (simp add: example_prefix_def node_wait_error_def node_ok_sel cfg0_sel nonces0_def
      nonce_related_def lower_def lower_char_def sublist_code)
  done

text \<open>
  C10 as stated fails: the wait fails with a text containing \<^verbatim>\<open>nonce\<close>, the query that
  follows fails too, and the counter of A stays at the advanced value 8.
\<close>

theorem failed_resync_keeps_advanced_nonce:
  "sublist ''nonce'' ''bad response: nonce field missing'' \<and>
   build_and_send cfg0 node_wait_error_down (acct_a cfg0) ''0xB'' ''A'' nonces0 =
     (Inr None, nonces0(''A'' \<mapsto> 8),
      example_prefix (acct_a cfg0) ''0xB'' 7 @
      [Call (SendRawTransaction ''signed''), Print (TxSubmitted ''0xh'' ''0xA'' ''0xB'' 7 110000),
       Call (WaitForTransactionReceipt ''0xh'' 120 2),
       Print (SendError ''bad response: nonce field missing''),
       Call (GetTransactionCount ''0xA'' ''pending''),
       Print (NonceRefetchFailed (Exn OtherException ''connection refused''))])"
  by (simp add: example_eval)

text \<open>
  C8, as amended. When, during a pass of the loop, the query for the latest block fails,
  or the block carries no base fee and the query for the gas price fails,
  \<^verbatim>\<open>compute_fee_values\<close> raises that error. The call of \<^verbatim>\<open>build_and_send\<close> of that pass
  (from A to B with the key \<^verbatim>\<open>A\<close> at an even turn, from B to A with the key \<^verbatim>\<open>B\<close> at an
  odd one) then ends with an exception (this very error, once the amount, the stored
  sequence number and the chain id were obtained), nothing is signed or broadcast and
  the dictionary is unchanged. When the sleep that follows returns, the turn advances by
  one, and a pass at that turn calls \<^verbatim>\<open>build_and_send\<close> for the other direction and the
  other key, on the unchanged dictionary; when the sleep raises, the pass ends with the
  exception of the sleep.
\<close>

theorem fee_query_failure_aborts_cycle:
  "get_block (pass_node p) ''latest'' = Inl e \<or>
   (\<exists>latest. get_block (pass_node p) ''latest'' = Inr latest \<and> latest ''baseFeePerGas'' = None \<and>
             gas_price (pass_node p) = Inl e) \<Longrightarrow>
   loop_body cfg p turn nonces = (c, turn', nonces') \<Longrightarrow>
     fst (compute_fee_values (pass_node p)) = Inl e \<and>
     (\<exists>e' evs. build_and_send cfg (pass_node p) (cy_from c) (cy_to c) (cy_key c) nonces =
                 (Inl e', nonces, evs) \<and> cy_result c = Inl e' \<and>
               cy_events c = evs @ [Print (RoutineException e'), Print Waiting]) \<and>
     ((\<exists>v. to_wei (pass_node p) (AMOUNT_ETH cfg) ''ether'' = Inr v) \<and> nonces (cy_key c) \<noteq> None \<and>
      (\<exists>i. chain_id (pass_node p) = Inr i) \<longrightarrow> cy_result c = Inl e) \<and>
     signed_txs (cy_events c) = [] \<and> broadcasts (cy_events c) = [] \<and>
     nonces' = nonces \<and>
     turn' = (case pass_sleep p of None \<Rightarrow> Inr (turn + 1) | Some x \<Rightarrow> Inl x) \<and>
     (\<forall>p' c' turn'' nonces''.
        loop_body cfg p' (turn + 1) nonces' = (c', turn'', nonces'') \<longrightarrow>
          cy_key c' \<noteq> cy_key c \<and>
          (\<exists>evs. build_and_send cfg (pass_node p')
                   (if cy_key c = ''A'' then acct_b cfg else acct_a cfg)
                   (if cy_key c = ''A'' then address (acct_a cfg) else address (acct_b cfg))
                   (if cy_key c = ''A'' then ''B'' else ''A'') nonces =
                 (cy_result c', nonces'', evs))) \<and>
     cy_key c = (if turn mod 2 = 0 then ''A'' else ''B'') \<and>
     cy_from c = (if turn mod 2 = 0 then acct_a cfg else acct_b cfg) \<and>
     cy_to c = (if turn mod 2 = 0 then address (acct_b cfg) else address (acct_a cfg))"
proof -
  assume q: "get_block (pass_node p) ''latest'' = Inl e \<or>
   (\<exists>latest. get_block (pass_node p) ''latest'' = Inr latest \<and> latest ''baseFeePerGas'' = None \<and>
             gas_price (pass_node p) = Inl e)"
    and lb: "loop_body cfg p turn nonces = (c, turn', nonces')"
  let ?w3 = "pass_node p"
  from q have fee: "fst (compute_fee_values ?w3) = Inl e"
    by (auto simp: compute_fee_values_def)
  from loop_body_unfold(6) [OF lb] obtain evs where
    bs: "build_and_send cfg ?w3 (cy_from c) (cy_to c) (cy_key c) nonces = (cy_result c, nonces', evs)" and
    ce: "cy_events c =
           evs @ (case cy_result c of Inl e \<Rightarrow> [Print (RoutineException e)] | Inr h \<Rightarrow> []) @ [Print Waiting]"
    by auto
  obtain b evs0 where b: "build_signed cfg ?w3 (cy_from c) (cy_to c) (cy_key c) nonces = (b, evs0)"
    by (cases "build_signed cfg ?w3 (cy_from c) (cy_to c) (cy_key c) nonces")
  txt \<open>Lines 75--99 raise: the \<^verbatim>\<open>try\<close> of line 100 is not reached.\<close>
  from build_signed_fee_failure(1) [OF fee b] obtain e' where e': "b = Inl e'" by auto
  with bs b have r: "cy_result c = Inl e'" "nonces' = nonces" "evs = evs0"
    by (simp_all add: build_and_send_def)
  from bs r ce have call: "\<exists>e' evs. build_and_send cfg ?w3 (cy_from c) (cy_to c) (cy_key c) nonces =
                 (Inl e', nonces, evs) \<and> cy_result c = Inl e' \<and>
               cy_events c = evs @ [Print (RoutineException e'), Print Waiting]"
    by simp
  from build_signed_fee_failure(2) [OF fee b] build_signed_prefix(1) [OF b] ce r
  have unsent: "signed_txs (cy_events c) = []" "broadcasts (cy_events c) = []" by simp_all
  from build_signed_fee_failure(3) [OF fee b] e' r
  have same: "(\<exists>v. to_wei ?w3 (AMOUNT_ETH cfg) ''ether'' = Inr v) \<and> nonces (cy_key c) \<noteq> None \<and>
      (\<exists>i. chain_id ?w3 = Inr i) \<longrightarrow> cy_result c = Inl e" by simp
  txt \<open>Lines 147--150: the sleep, then the turn.\<close>
  from loop_body_unfold(1) [OF lb]
  have t: "turn' = (case pass_sleep p of None \<Rightarrow> Inr (turn + 1) | Some x \<Rightarrow> Inl x)" .
  have nx: "cy_key c' \<noteq> cy_key c \<and>
          (\<exists>evs. build_and_send cfg (pass_node p')
                   (if cy_key c = ''A'' then acct_b cfg else acct_a cfg)
                   (if cy_key c = ''A'' then address (acct_a cfg) else address (acct_b cfg))
                   (if cy_key c = ''A'' then ''B'' else ''A'') nonces =
                 (cy_result c', nonces'', evs))"
    if "loop_body cfg p' (turn + 1) nonces' = (c', turn'', nonces'')" for p' c' turn'' nonces''
  proof -
    have par: "(turn + 1) mod 2 = 0 \<longleftrightarrow> turn mod 2 \<noteq> 0" by presburger
    from loop_body_unfold(6) [OF that] r(2) obtain evs' where
      "build_and_send cfg (pass_node p') (cy_from c') (cy_to c') (cy_key c') nonces =
         (cy_result c', nonces'', evs')" by auto
    with par loop_body_unfold(3,4,5) [OF that] loop_body_unfold(3) [OF lb] show ?thesis
      by (cases "turn mod 2 = 0") auto
  qed
  from fee call same unsent r(2) t nx loop_body_unfold(3,4,5) [OF lb] show ?thesis by blast
qed

text \<open>
  The theorem on a pass during which the query for the latest block times out, followed
  by a pass on a node that answers.
\<close>

theorem fee_query_failure_aborts_cycle_witness:
  "get_block (pass_node (quiet node_no_block)) ''latest'' = Inl (Exn OtherException ''read timed out'') \<and>
   cy_result (fst (loop_body cfg0 (quiet node_no_block) 0 nonces0)) =
     Inl (Exn OtherException ''read timed out'') \<and>
   signed_txs (cy_events (fst (loop_body cfg0 (quiet node_no_block) 0 nonces0))) = [] \<and>
   broadcasts (cy_events (fst (loop_body cfg0 (quiet node_no_block) 0 nonces0))) = [] \<and>
   snd (loop_body cfg0 (quiet node_no_block) 0 nonces0) = (Inr 1, nonces0) \<and>
   cy_key (fst (loop_body cfg0 (quiet node_no_block) 0 nonces0)) = ''A'' \<and>
   cy_key (fst (loop_body cfg0 (quiet node_ok) 1 nonces0)) \<noteq> ''A'' \<and>
   (\<exists>evs. build_and_send cfg0 node_ok (acct_b cfg0) (address (acct_a cfg0)) ''B'' nonces0 =
            (cy_result (fst (loop_body cfg0 (quiet node_ok) 1 nonces0)),
             snd (snd (loop_body cfg0 (quiet node_ok) 1 nonces0)), evs))"
proof -
  let ?e = "Exn OtherException ''read timed out''"
  let ?lb = "loop_body cfg0 (quiet node_no_block) 0 nonces0"
  let ?nx = "loop_body cfg0 (quiet node_ok) 1 nonces0"
  have q: "get_block (pass_node (quiet node_no_block)) ''latest'' = Inl ?e"
    by (simp add: node_no_block_def)
  have ev: "?lb =
     (\<lparr>cy_turn = 0, cy_from = acct_a cfg0, cy_to = ''0xB'', cy_key = ''A'',
       cy_result = Inl ?e,
       cy_events =
         [Call ChainId,
          Call (EstimateGas [(''to'', PStr ''0xB''), (''value'', PInt 10000000000000000),
                             (''nonce'', PInt 7), (''chainId'', PInt 1), (''from'', PStr ''0xA'')]),
          Call (GetBlock ''latest''),
          Print (RoutineException ?e), Print Waiting]\<rparr>,
      Inr 1, nonces0)"
    using loop_body_node_no_block [of None] by (simp add: quiet_def)
  have k: "cy_key (fst ?lb) = ''A''" by (simp only: ev fst_conv cycle.simps)
  have lb: "?lb = (fst ?lb, fst (snd ?lb), snd (snd ?lb))" by simp
  have nx: "loop_body cfg0 (quiet node_ok) (0 + 1) (snd (snd ?lb)) = (fst ?nx, fst (snd ?nx), snd (snd ?nx))"
    by (simp add: ev)
  note th = fee_query_failure_aborts_cycle [OF disjI1 [OF q] lb]
  from th have a: "signed_txs (cy_events (fst ?lb)) = []" "broadcasts (cy_events (fst ?lb)) = []"
    "snd (snd ?lb) = nonces0" "fst (snd ?lb) = Inr (0 + 1)"
    by simp_all
  note th [THEN conjunct2, THEN conjunct2, THEN conjunct1]
  moreover have "\<exists>v. to_wei (pass_node (quiet node_no_block)) (AMOUNT_ETH cfg0) ''ether'' = Inr v"
    by (simp add: node_no_block_def node_ok_sel)
  moreover have "nonces0 (cy_key (fst ?lb)) \<noteq> None"
    by (simp only: k) (simp add: nonces0_def)
  moreover have "\<exists>i. chain_id (pass_node (quiet node_no_block)) = Inr i"
    by (simp add: node_no_block_def node_ok_sel)
  ultimately have b: "cy_result (fst ?lb) = Inl ?e" by blast
  from th nx have c: "cy_key (fst ?nx) \<noteq> cy_key (fst ?lb) \<and>
     (\<exists>evs. build_and_send cfg0 (pass_node (quiet node_ok))
               (if cy_key (fst ?lb) = ''A'' then acct_b cfg0 else acct_a cfg0)
               (if cy_key (fst ?lb) = ''A'' then address (acct_a cfg0) else address (acct_b cfg0))
               (if cy_key (fst ?lb) = ''A'' then ''B'' else ''A'') nonces0 =
             (cy_result (fst ?nx), snd (snd ?nx), evs))"
    by blast
  have s: "snd ?lb = (Inr 1, nonces0)" using a(3,4) by (simp add: prod_eq_iff)
  from q a(1,2) b s k c show ?thesis by (simp add: k)
qed

text \<open>
  C8 as stated fails for the query of the recommended priority fee, one of the queries
  for fee data: it fails, lines 59--63 replace its answer by 2 gwei, and the call signs
  and broadcasts a transaction and advances the sequence number of A from 7 to 8.
\<close>

theorem failed_priority_fee_query_still_sends:
  "max_priority_fee node_no_priority = Inl (Exn OtherException ''method not found'') \<and>
   build_and_send cfg0 node_no_priority (acct_a cfg0) ''0xB'' ''A'' nonces0 =
     (Inr (Some ''0xh''), nonces0(''A'' \<mapsto> 8),
      [Call ChainId,
       Call (EstimateGas [(''to'', PStr ''0xB''), (''value'', PInt 10000000000000000),
                          (''nonce'', PInt 7), (''chainId'', PInt 1), (''from'', PStr ''0xA'')]),
       Call (GetBlock ''latest''), Call MaxPriorityFee,
       Call (SignTransaction
               [(''to'', PStr ''0xB''), (''value'', PInt 10000000000000000), (''nonce'', PInt 7),
                (''chainId'', PInt 1), (''gas'', PInt 110000),
                (''maxPriorityFeePerGas'', PInt 2000000000), (''maxFeePerGas'', PInt 2000000250)]),
       Call (SendRawTransaction ''signed''), Print (TxSubmitted ''0xh'' ''0xA'' ''0xB'' 7 110000),
       Call (WaitForTransactionReceipt ''0xh'' 120 2), Print (Confirmed 1 1)])"
  by (simp add: build_and_send_node_no_priority) (simp add: node_no_priority_def)

subsection \<open>Alternation\<close>

text \<open>
  C5, as amended. The turn counter starts at 0. The \<open>i\<close>-th pass of a run has the counter
  \<open>i\<close>, and it is the call of \<^verbatim>\<open>build_and_send\<close> from A to the address of B with the key
  \<^verbatim>\<open>A\<close> when \<open>i\<close> is even, from B to the address of A with the key \<^verbatim>\<open>B\<close> when \<open>i\<close> is odd,
  on the dictionary that the passes before it left: the result of the pass, the
  dictionary after it and its events are those of that call, whatever the call and
  the passes before it returned or raised, and a transaction signed in the pass is
  addressed to that receiver. The counter is one higher after every pass
  whose sleep returns; a pass whose sleep raises is the last one, and leaves the loop
  with that exception and the counter as it was.
\<close>

theorem turn_parity_selects_direction:
  assumes run: "main_loop cfg passes nonces = (cs, turn, nonces', stopped)"
  shows "length cs \<le> length passes \<and>
     (\<forall>i<length cs.
        cy_turn (cs ! i) = int i \<and>
        cy_from (cs ! i) = (if even i then acct_a cfg else acct_b cfg) \<and>
        cy_to (cs ! i) = (if even i then address (acct_b cfg) else address (acct_a cfg)) \<and>
        cy_key (cs ! i) = (if even i then ''A'' else ''B'') \<and>
        (\<exists>evs. build_and_send cfg (pass_node (passes ! i))
                  (if even i then acct_a cfg else acct_b cfg)
                  (if even i then address (acct_b cfg) else address (acct_a cfg))
                  (if even i then ''A'' else ''B'')
                  (nonces_of_run (main_loop cfg (take i passes) nonces)) =
                (cy_result (cs ! i), nonces_of_run (main_loop cfg (take (Suc i) passes) nonces), evs) \<and>
               cy_events (cs ! i) =
                 evs @ (case cy_result (cs ! i) of Inl e \<Rightarrow> [Print (RoutineException e)] | Inr h \<Rightarrow> []) @
                 [Print Waiting]) \<and>
        (\<forall>tx\<in>set (signed_txs (cy_events (cs ! i))).
           map_of tx ''to'' = Some (PStr (if even i then address (acct_b cfg) else address (acct_a cfg)))) \<and>
        (Suc i < length cs \<longrightarrow> pass_sleep (passes ! i) = None)) \<and>
     (case stopped of
        None \<Rightarrow> length cs = length passes \<and> turn = int (length passes) \<and>
                (\<forall>i<length passes. pass_sleep (passes ! i) = None)
      | Some e \<Rightarrow> cs \<noteq> [] \<and> pass_sleep (passes ! (length cs - 1)) = Some e \<and>
                  turn = int (length cs) - 1)"
proof -
  from run have rl: "run_loop cfg passes 0 nonces = (cs, turn, nonces', stopped)"
    by (simp add: main_loop_def)
  txt \<open>How the run ends.\<close>
  from run_loop_end [OF rl] have len: "length cs \<le> length passes"
    and sl: "\<forall>i. Suc i < length cs \<longrightarrow> pass_sleep (passes ! i) = None"
    and fin: "case stopped of
        None \<Rightarrow> length cs = length passes \<and> turn = int (length passes) \<and>
                (\<forall>i<length passes. pass_sleep (passes ! i) = None)
      | Some e \<Rightarrow> cs \<noteq> [] \<and> pass_sleep (passes ! (length cs - 1)) = Some e \<and>
                  turn = int (length cs) - 1"
    by (simp_all split: option.splits)
  txt \<open>The pass \<open>i\<close>.\<close>
  have pass: "cy_turn (cs ! i) = int i \<and>
        cy_from (cs ! i) = (if even i then acct_a cfg else acct_b cfg) \<and>
        cy_to (cs ! i) = (if even i then address (acct_b cfg) else address (acct_a cfg)) \<and>
        cy_key (cs ! i) = (if even i then ''A'' else ''B'') \<and>
        (\<exists>evs. build_and_send cfg (pass_node (passes ! i))
                  (if even i then acct_a cfg else acct_b cfg)
                  (if even i then address (acct_b cfg) else address (acct_a cfg))
                  (if even i then ''A'' else ''B'')
                  (nonces_of_run (main_loop cfg (take i passes) nonces)) =
                (cy_result (cs ! i), nonces_of_run (main_loop cfg (take (Suc i) passes) nonces), evs) \<and>
               cy_events (cs ! i) =
                 evs @ (case cy_result (cs ! i) of Inl e \<Rightarrow> [Print (RoutineException e)] | Inr h \<Rightarrow> []) @
                 [Print Waiting]) \<and>
        (\<forall>tx\<in>set (signed_txs (cy_events (cs ! i))).
           map_of tx ''to'' = Some (PStr (if even i then address (acct_b cfg) else address (acct_a cfg)))) \<and>
        (Suc i < length cs \<longrightarrow> pass_sleep (passes ! i) = None)"
    if i: "i < length cs" for i
  proof -
    from run_loop_pass [OF rl i] obtain nsi ti nsi' where
      before: "run_loop cfg (take i passes) 0 nonces = (take i cs, 0 + int i, nsi, None)" and
      lb: "loop_body cfg (passes ! i) (0 + int i) nsi = (cs ! i, ti, nsi')" and
      after: "nonces_of_run (run_loop cfg (take (Suc i) passes) 0 nonces) = nsi'"
      by blast
    from before have nsi: "nonces_of_run (main_loop cfg (take i passes) nonces) = nsi"
      by (simp add: main_loop_def nonces_of_run_def)
    from after have nsi': "nonces_of_run (main_loop cfg (take (Suc i) passes) nonces) = nsi'"
      by (simp add: main_loop_def)
    have par: "((0 + int i) mod 2 = 0) = even i" by presburger
    from loop_body_unfold(2) [OF lb] have t: "cy_turn (cs ! i) = int i" by simp
    from loop_body_unfold(3,4,5) [OF lb] par
    have lab: "cy_from (cs ! i) = (if even i then acct_a cfg else acct_b cfg)"
      "cy_to (cs ! i) = (if even i then address (acct_b cfg) else address (acct_a cfg))"
      "cy_key (cs ! i) = (if even i then ''A'' else ''B'')"
      by simp_all
    from loop_body_unfold(6) [OF lb] obtain evs where
      bs: "build_and_send cfg (pass_node (passes ! i)) (cy_from (cs ! i)) (cy_to (cs ! i))
          (cy_key (cs ! i)) nsi = (cy_result (cs ! i), nsi', evs)" and
      ce: "cy_events (cs ! i) =
         evs @ (case cy_result (cs ! i) of Inl e \<Rightarrow> [Print (RoutineException e)] | Inr h \<Rightarrow> []) @
         [Print Waiting]"
      by blast
    txt \<open>What the pass signs is what the call signs, and the call signs for its receiver.\<close>
    from ce have "signed_txs (cy_events (cs ! i)) = signed_txs evs"
      by (simp split: sum.splits)
    with build_and_send_to [OF bs] lab(2)
    have rcv: "\<forall>tx\<in>set (signed_txs (cy_events (cs ! i))).
           map_of tx ''to'' = Some (PStr (if even i then address (acct_b cfg) else address (acct_a cfg)))"
      by simp
    from bs ce have call: "\<exists>evs. build_and_send cfg (pass_node (passes ! i))
                  (if even i then acct_a cfg else acct_b cfg)
                  (if even i then address (acct_b cfg) else address (acct_a cfg))
                  (if even i then ''A'' else ''B'')
                  (nonces_of_run (main_loop cfg (take i passes) nonces)) =
                (cy_result (cs ! i), nonces_of_run (main_loop cfg (take (Suc i) passes) nonces), evs) \<and>
               cy_events (cs ! i) =
                 evs @ (case cy_result (cs ! i) of Inl e \<Rightarrow> [Print (RoutineException e)] | Inr h \<Rightarrow> []) @
                 [Print Waiting]"
      unfolding lab nsi nsi' by blast
    from t lab call rcv sl show ?thesis by blast
  qed
  from len pass fin show ?thesis by blast
qed

text \<open>
  The theorem on three passes whose sleeps return: the first call ends with an
  exception, the second with a hash, the third with \<^verbatim>\<open>None\<close>.
\<close>

theorem turn_parity_selects_direction_witness:
  "map (\<lambda>c. (cy_turn c, cy_from c, cy_to c, cy_key c, cy_result c))
      (fst (main_loop cfg0 [quiet node_no_block, quiet node_ok, quiet node_funds] nonces0)) =
     [(0, acct_a cfg0, ''0xB'', ''A'', Inl (Exn OtherException ''read timed out'')),
      (1, acct_b cfg0, ''0xA'', ''B'', Inr (Some ''0xh'')),
      (2, acct_a cfg0, ''0xB'', ''A'', Inr None)] \<and>
   snd (main_loop cfg0 [quiet node_no_block, quiet node_ok, quiet node_funds] nonces0) =
     (3, nonces0(''B'' \<mapsto> 4), None) \<and>
   cy_key (fst (main_loop cfg0 [quiet node_no_block, quiet node_ok, quiet node_funds] nonces0) ! 0) = ''A'' \<and>
   cy_key (fst (main_loop cfg0 [quiet node_no_block, quiet node_ok, quiet node_funds] nonces0) ! 1) = ''B'' \<and>
   cy_key (fst (main_loop cfg0 [quiet node_no_block, quiet node_ok, quiet node_funds] nonces0) ! 2) = ''A'' \<and>
   (\<exists>evs. build_and_send cfg0 node_ok (acct_b cfg0) (address (acct_a cfg0)) ''B'' nonces0 =
            (cy_result (fst (main_loop cfg0 [quiet node_no_block, quiet node_ok, quiet node_funds] nonces0) ! 1),
             nonces0(''B'' \<mapsto> 4), evs)) \<and>
   map (\<lambda>c. map (\<lambda>tx. map_of tx ''to'') (signed_txs (cy_events c)))
      (fst (main_loop cfg0 [quiet node_no_block, quiet node_ok, quiet node_funds] nonces0)) =
     [[], [Some (PStr ''0xA'')], [Some (PStr ''0xB'')]]"
proof -
  let ?ps = "[quiet node_no_block, quiet node_ok, quiet node_funds]"
  let ?run = "main_loop cfg0 ?ps nonces0"
  have sm: "map (\<lambda>c. (cy_turn c, cy_from c, cy_to c, cy_key c, cy_result c)) (fst ?run) =
     [(0, acct_a cfg0, ''0xB'', ''A'', Inl (Exn OtherException ''read timed out'')),
      (1, acct_b cfg0, ''0xA'', ''B'', Inr (Some ''0xh'')),
      (2, acct_a cfg0, ''0xB'', ''A'', Inr None)]"
    by (rule run_no_block_ok_funds(1))
  then have "length (map (\<lambda>c. (cy_turn c, cy_from c, cy_to c, cy_key c, cy_result c)) (fst ?run)) = 3"
    by simp
  then have len: "length (fst ?run) = 3" by simp
  have "?run = (fst ?run, fst (snd ?run), fst (snd (snd ?run)), snd (snd (snd ?run)))" by simp
  note th = turn_parity_selects_direction [OF this]
  note pass = th [THEN conjunct2, THEN conjunct1, rule_format]
  have l: "(0::nat) < length (fst ?run)" "(1::nat) < length (fst ?run)" "(2::nat) < length (fst ?run)"
    by (simp_all add: len)
  from pass [OF l(1)] have k0: "cy_key (fst ?run ! 0) = ''A''" by simp
  from pass [OF l(2)] have k1: "cy_key (fst ?run ! 1) = ''B''" by simp
  from pass [OF l(3)] have k2: "cy_key (fst ?run ! 2) = ''A''" by simp
  from pass [OF l(2)] obtain evs where
    "build_and_send cfg0 (pass_node (?ps ! 1))
       (if even (1::nat) then acct_a cfg0 else acct_b cfg0)
       (if even (1::nat) then address (acct_b cfg0) else address (acct_a cfg0))
       (if even (1::nat) then ''A'' else ''B'')
       (nonces_of_run (main_loop cfg0 (take 1 ?ps) nonces0)) =
     (cy_result (fst ?run ! 1), nonces_of_run (main_loop cfg0 (take (Suc 1) ?ps) nonces0), evs)"
    by blast
  then have "build_and_send cfg0 node_ok (acct_b cfg0) (address (acct_a cfg0)) ''B'' nonces0 =
            (cy_result (fst ?run ! 1), nonces0(''B'' \<mapsto> 4), evs)"
    by (simp add: run_prefixes)
  then have call: "\<exists>evs. build_and_send cfg0 node_ok (acct_b cfg0) (address (acct_a cfg0)) ''B'' nonces0 =
            (cy_result (fst ?run ! 1), nonces0(''B'' \<mapsto> 4), evs)" ..
  from sm run_no_block_ok_funds(2) k0 k1 k2 call run_no_block_ok_funds_to show ?thesis by blast
qed

text \<open>
  C5 as stated fails: the counter does not advance after every cycle. The sleep of line
  149 is outside the \<^verbatim>\<open>try\<close> and before \<^verbatim>\<open>turn += 1\<close>; when it raises (as
  \<^verbatim>\<open>time.sleep(-1.0)\<close> does, the delay drawn with \<^verbatim>\<open>MIN_DELAY_SEC = MAX_DELAY_SEC = -1\<close>),
  the cycle has run, its transaction is accepted, the counter is still 0 and the loop
  has ended: the second pass does not run.
\<close>

theorem failed_sleep_keeps_turn:
  "main_loop cfg0 [sleep_fails node_ok, quiet node_ok] nonces0 =
     ([\<lparr>cy_turn = 0, cy_from = acct_a cfg0, cy_to = ''0xB'', cy_key = ''A'',
        cy_result = Inr (Some ''0xh''),
        cy_events =
          example_prefix (acct_a cfg0) ''0xB'' 7 @
          [Call (SendRawTransaction ''signed''), Print (TxSubmitted ''0xh'' ''0xA'' ''0xB'' 7 110000),
           Call (WaitForTransactionReceipt ''0xh'' 120 2), Print (Confirmed 1 1), Print Waiting]\<rparr>],
      0, nonces0(''A'' \<mapsto> 8), Some (Exn OtherException ''sleep length must be non-negative''))"
  by (simp add: main_loop_def loop_body_def build_and_send_node_ok [simplified cfg0_sel] cfg0_sel)

subsection \<open>Fees and gas limit\<close>

text \<open>
  C3, as amended. When the latest block carries a base fee \<open>b\<close> with \<open>0 \<le> b < 2^50\<close>, the
  fee values are the pair of the priority fee (the node's recommendation, or exactly
  2000000000 wei = 2 gwei when that query fails) and the maximum fee
  \<open>floor (2.5 * b) + priority\<close>; base fee 100 and priority fee 10 give 260. When the block
  carries no base fee, the fee values are the single entry \<^verbatim>\<open>gasPrice\<close>.
  The bound is needed because \<^verbatim>\<open>base_fee * 2.5\<close> is a product of doubles.
\<close>

theorem compute_fee_values_result:
  "get_block w3 ''latest'' = Inr latest \<Longrightarrow>
     (\<forall>b. latest ''baseFeePerGas'' = Some b \<and> 0 \<le> b \<and> b < 2 ^ 50 \<longrightarrow>
        fst (compute_fee_values w3) =
          Inr [(''maxPriorityFeePerGas'',
                  PInt (case max_priority_fee w3 of Inr p \<Rightarrow> p | Inl e \<Rightarrow> 2000000000)),
               (''maxFeePerGas'',
                  PInt (\<lfloor>2.5 * real_of_int b\<rfloor> +
                        (case max_priority_fee w3 of Inr p \<Rightarrow> p | Inl e \<Rightarrow> 2000000000)))]) \<and>
     (\<forall>gp. latest ''baseFeePerGas'' = None \<and> gas_price w3 = Inr gp \<longrightarrow>
        fst (compute_fee_values w3) = Inr [(''gasPrice'', PInt gp)])"
proof (intro conjI allI impI)
  fix b
  assume latest: "get_block w3 ''latest'' = Inr latest"
    and b: "latest ''baseFeePerGas'' = Some b \<and> 0 \<le> b \<and> b < 2 ^ 50"
  from int_times_2_5 [of b] b obtain f where
    "int_times_float b float_2_5 = Inr f" and "int_of_float f = Inr (5 * b div 2)"
    by (auto split: sum.splits)
  with latest b show "fst (compute_fee_values w3) =
          Inr [(''maxPriorityFeePerGas'',
                  PInt (case max_priority_fee w3 of Inr p \<Rightarrow> p | Inl e \<Rightarrow> 2000000000)),
               (''maxFeePerGas'',
                  PInt (\<lfloor>2.5 * real_of_int b\<rfloor> +
                        (case max_priority_fee w3 of Inr p \<Rightarrow> p | Inl e \<Rightarrow> 2000000000)))]"
    by (simp add: compute_fee_values_def Let_def two_gwei_def floor_2_5_real' split: sum.splits)
next
  fix gp
  assume "get_block w3 ''latest'' = Inr latest"
    and "latest ''baseFeePerGas'' = None \<and> gas_price w3 = Inr gp"
  then show "fst (compute_fee_values w3) = Inr [(''gasPrice'', PInt gp)]"
    by (simp add: compute_fee_values_def)
qed

text \<open>The theorem at base fee 100 with priority fee 10, and on a node without base fee.\<close>

theorem compute_fee_values_result_witness:
  "get_block node_ok ''latest'' = Inr [''baseFeePerGas'' \<mapsto> 100] \<and>
   max_priority_fee node_ok = Inr 10 \<and>
   fst (compute_fee_values node_ok) =
     Inr [(''maxPriorityFeePerGas'', PInt 10), (''maxFeePerGas'', PInt 260)] \<and>
   get_block node_legacy ''latest'' = Inr Map.empty \<and>
   gas_price node_legacy = Inr 50 \<and>
   fst (compute_fee_values node_legacy) = Inr [(''gasPrice'', PInt 50)]"
  using compute_fee_values_result [of node_ok "[''baseFeePerGas'' \<mapsto> 100]"]
    compute_fee_values_result [of node_legacy Map.empty]
  by (simp add: node_ok_def node_legacy_def)

text \<open>
  C3 as stated fails at the base fee \<open>2^51 - 1\<close>: the product is rounded to a double, and
  the maximum fee is one more than \<open>floor (2.5 * b) + priority\<close>.
\<close>

theorem compute_fee_values_high_base_fee:
  "fst (compute_fee_values node_high_fee) =
     Inr [(''maxPriorityFeePerGas'', PInt 10), (''maxFeePerGas'', PInt 5629499534213128)] \<and>
   \<lfloor>2.5 * real_of_int 2251799813685247\<rfloor> + 10 = 5629499534213127"
  by (simp add: compute_fee_values_def node_high_fee_def node_ok_def float_eval)

text \<open>
  C4, as amended. When the simulation succeeds with an estimate \<open>e\<close>, \<open>0 \<le> e < 2^48\<close>, the
  gas limit is \<open>floor (1.1 * e)\<close>; when the simulation fails, it is exactly 21000; and the
  transaction that is signed carries this limit as its \<^verbatim>\<open>gas\<close>.
  The bound is needed because \<^verbatim>\<open>estimated * 1.1\<close> is a product of doubles.
\<close>

theorem gas_limit_result:
  "(\<forall>e. estimate_gas w3 (AList.update ''from'' (PStr (address from_acct)) tx_base) = Inr e \<and>
        0 \<le> e \<and> e < 2 ^ 48 \<longrightarrow>
        fst (gas_estimate w3 from_acct tx_base) = \<lfloor>1.1 * real_of_int e\<rfloor>) \<and>
   (\<forall>x. estimate_gas w3 (AList.update ''from'' (PStr (address from_acct)) tx_base) = Inl x \<longrightarrow>
        fst (gas_estimate w3 from_acct tx_base) = 21000) \<and>
   (\<forall>g tx raw evs.
        build_signed cfg w3 from_acct to_addr nonce_key nonces = (Inr (g, tx, raw), evs) \<longrightarrow>
        tx_gas tx = Some g \<and>
        (\<exists>v n c. to_wei w3 (AMOUNT_ETH cfg) ''ether'' = Inr v \<and> nonces nonce_key = Some n \<and>
                 chain_id w3 = Inr c \<and>
                 g = fst (gas_estimate w3 from_acct
                        [(''to'', PStr to_addr), (''value'', PInt v), (''nonce'', PInt n),
                         (''chainId'', PInt c)])))"
proof (intro conjI allI impI)
  fix e
  assume e: "estimate_gas w3 (AList.update ''from'' (PStr (address from_acct)) tx_base) = Inr e \<and>
        0 \<le> e \<and> e < 2 ^ 48"
  from floor_times_1_1 [of e] e obtain f where
    "int_times_float e float_1_1 = Inr f" and "math_floor f = Inr (11 * e div 10)"
    by (auto split: sum.splits)
  with e show "fst (gas_estimate w3 from_acct tx_base) = \<lfloor>1.1 * real_of_int e\<rfloor>"
    by (simp add: gas_estimate_def Let_def floor_1_1_real')
next
  fix x
  assume "estimate_gas w3 (AList.update ''from'' (PStr (address from_acct)) tx_base) = Inl x"
  then show "fst (gas_estimate w3 from_acct tx_base) = 21000"
    by (simp add: gas_estimate_def Let_def)
next
  fix g tx raw evs
  assume b: "build_signed cfg w3 from_acct to_addr nonce_key nonces = (Inr (g, tx, raw), evs)"
  from build_signed_Inr(2) [OF b] show "tx_gas tx = Some g" .
  from build_signed_Inr(5) [OF b]
  show "\<exists>v n c. to_wei w3 (AMOUNT_ETH cfg) ''ether'' = Inr v \<and> nonces nonce_key = Some n \<and>
                 chain_id w3 = Inr c \<and>
                 g = fst (gas_estimate w3 from_acct
                        [(''to'', PStr to_addr), (''value'', PInt v), (''nonce'', PInt n),
                         (''chainId'', PInt c)])" .
qed

text \<open>The theorem at the estimate 100000, on a failing simulation, and on a signed transaction.\<close>

theorem gas_limit_result_witness:
  "estimate_gas node_ok (AList.update ''from'' (PStr (address (acct_a cfg0))) []) = Inr 100000 \<and>
   fst (gas_estimate node_ok (acct_a cfg0) []) = 110000 \<and>
   estimate_gas node_no_estimate (AList.update ''from'' (PStr (address (acct_a cfg0))) []) =
     Inl (Exn OtherException ''execution reverted'') \<and>
   fst (gas_estimate node_no_estimate (acct_a cfg0) []) = 21000 \<and>
   build_signed cfg0 node_ok (acct_a cfg0) ''0xB'' ''A'' nonces0 =
     (Inr (110000, example_tx ''0xB'' 7, ''signed''), example_prefix (acct_a cfg0) ''0xB'' 7) \<and>
   tx_gas (example_tx ''0xB'' 7) = Some 110000"
  using gas_limit_result [of node_ok "acct_a cfg0" "[]" cfg0 "''0xB''" "''A''" nonces0]
    gas_limit_result [of node_no_estimate "acct_a cfg0" "[]" cfg0 "''0xB''" "''A''" nonces0]
  by (simp add: node_ok_sel node_no_estimate_def build_signed_node_ok nonces0_def)

text \<open>
  C4 as stated fails at the estimate 553025014366359: the rounded product is one more
  than \<open>floor (1.1 * e)\<close>.
\<close>

theorem gas_limit_high_estimate:
  "fst (gas_estimate node_high_gas (acct_a cfg0) []) = 608327515802995 \<and>
   \<lfloor>1.1 * real_of_int 553025014366359\<rfloor> = 608327515802994"
  by (simp add: gas_estimate_def node_high_gas_def node_ok_def float_eval)

end
